theory Spec2Isabelle
  imports Complex_Main "HOL-Library.AList" "HOL-Library.Multiset" "HOL-Library.Product_Lexorder"
begin

section \<open>Python floats\<close>

text \<open>
  A Python float is an IEEE 754 binary64 number. A value of type \<open>double\<close> stands for one up
  to Python's \<^verbatim>\<open>==\<close>: a finite number by its exact value, the two infinities, and NaN. The
  two zeros, which no comparison and no arithmetic result of this program tells apart except
  by the sign of a zero result, are the one value \<open>Fin 0\<close>.
\<close>

datatype double = Fin real | PInf | NInf | NaN

text \<open>Rounding to an integer, a tie to the even one.\<close>

definition half_even :: "real \<Rightarrow> int" where
  "half_even y =
     (let f = \<lfloor>y\<rfloor>; d = y - of_int f
      in if d < 1 / 2 then f else if 1 / 2 < d then f + 1 else if even f then f else f + 1)"

text \<open>
  The binary exponent of a magnitude, kept within the exponents of normal doubles: the
  largest \<open>e\<close> from 1023 down to -1021 with \<open>2\<^sup>e \<le> a\<close>, and -1022 below that (the subnormal
  range shares the exponent of the smallest normal numbers).
\<close>

fun exp_search :: "nat \<Rightarrow> real \<Rightarrow> int" where
  "exp_search 0 a = - 1022"
| "exp_search (Suc n) a =
     (if 2 powi (int (Suc n) - 1022) \<le> a then int (Suc n) - 1022 else exp_search n a)"

definition exponent :: "real \<Rightarrow> int" where
  "exponent a = exp_search 2045 a"

text \<open>
  Rounding a real number to the nearest double, a tie to the one with an even significand:
  the number is rounded to a multiple of the spacing \<open>2\<^sup>e\<^sup>-\<^sup>5\<^sup>2\<close> of the doubles around it, and
  a result of magnitude \<open>2\<^sup>1\<^sup>0\<^sup>2\<^sup>4\<close> or more overflows to an infinity.
\<close>

definition rnd :: "real \<Rightarrow> double" where
  "rnd x =
     (let q = 2 powi (exponent \<bar>x\<bar> - 52); n = half_even (x / q)
      in if 2 powi 1024 \<le> \<bar>of_int n\<bar> * q then (if x < 0 then NInf else PInf)
         else Fin (of_int n * q))"

fun fneg :: "double \<Rightarrow> double" where
  "fneg (Fin x) = Fin (- x)"
| "fneg PInf = NInf"
| "fneg NInf = PInf"
| "fneg NaN = NaN"

fun fabs :: "double \<Rightarrow> double" where
  "fabs (Fin x) = Fin \<bar>x\<bar>"
| "fabs PInf = PInf"
| "fabs NInf = PInf"
| "fabs NaN = NaN"

fun is_finite :: "double \<Rightarrow> bool" where
  "is_finite (Fin x) = True"
| "is_finite d = False"

fun fadd :: "double \<Rightarrow> double \<Rightarrow> double" where
  "fadd (Fin x) (Fin y) = rnd (x + y)"
| "fadd NaN b = NaN"
| "fadd a NaN = NaN"
| "fadd PInf NInf = NaN"
| "fadd NInf PInf = NaN"
| "fadd PInf b = PInf"
| "fadd NInf b = NInf"
| "fadd (Fin x) b = b"

definition fsub :: "double \<Rightarrow> double \<Rightarrow> double" where
  "fsub a b = fadd a (fneg b)"

fun fmul :: "double \<Rightarrow> double \<Rightarrow> double" where
  "fmul (Fin x) (Fin y) = rnd (x * y)"
| "fmul NaN b = NaN"
| "fmul a NaN = NaN"
| "fmul (Fin x) b = (if x = 0 then NaN else if (0 < x) = (b = PInf) then PInf else NInf)"
| "fmul a (Fin y) = (if y = 0 then NaN else if (0 < y) = (a = PInf) then PInf else NInf)"
| "fmul a b = (if a = b then PInf else NInf)"

text \<open>Division by one of the positive constants 1000, 100 and 10.\<close>

fun fdiv :: "double \<Rightarrow> real \<Rightarrow> double" where
  "fdiv (Fin x) c = rnd (x / c)"
| "fdiv d c = d"

text \<open>\<^verbatim>\<open>a > b\<close> and \<^verbatim>\<open>a >= b\<close>: false whenever an operand is NaN.\<close>

fun fgt :: "double \<Rightarrow> double \<Rightarrow> bool" where
  "fgt (Fin x) (Fin y) = (y < x)"
| "fgt NaN b = False"
| "fgt a NaN = False"
| "fgt NInf b = False"
| "fgt a PInf = False"
| "fgt a b = True"

definition fge :: "double \<Rightarrow> double \<Rightarrow> bool" where
  "fge a b = (a \<noteq> NaN \<and> b \<noteq> NaN \<and> (fgt a b \<or> a = b))"

section \<open>Values, errors and the library functions the program calls\<close>

text \<open>
  The program handles JSON data: candidate cars, coefficient envelopes and tool results are
  Python values as \<^verbatim>\<open>json.loads\<close> produces them, an integer of any size for an integer
  literal and a float for any other number. A dictionary is an association list in
  insertion order, looked up with \<^const>\<open>map_of\<close>.
\<close>

datatype json =
    JNull
  | JBool bool
  | JInt int
  | JNum double
  | JStr string
  | JArr "json list"
  | JObj "(string \<times> json) list"

text \<open>Every exception the modelled code can raise is a value of this type.\<close>

datatype error =
    KeyError string
  | TypeError
  | ValueError
  | AttributeError
  | OverflowError
  | JSONDecodeError
  | UnicodeDecodeError
  | StoreError

text \<open>
  What the program takes from Python's standard library is a parameter of the model:
  \<^verbatim>\<open>json.loads\<close>, \<^verbatim>\<open>bytes.decode('utf-8')\<close> and \<^verbatim>\<open>float\<close> on a string, each returning
  \<open>None\<close> where the Python function raises (JSONDecodeError, UnicodeDecodeError, ValueError);
  \<^verbatim>\<open>str\<close> on a value that is not a string, which an f-string applies to such a value;
  whether the interpreter's \<^verbatim>\<open>sum\<close> adds floats with Neumaier's compensation (Python 3.12
  and later) or plainly from left to right (earlier versions); and the order in which
  \<^verbatim>\<open>list.sort\<close> leaves keys that \<^verbatim>\<open><\<close> does not order because one of them is NaN, which
  depends on the comparisons the sorting algorithm happens to make.
\<close>

record pylib =
  json_loads :: "string \<Rightarrow> json option"
  utf8_decode :: "string \<Rightarrow> string option"
  str_to_float :: "string \<Rightarrow> double option"
  str_of :: "json \<Rightarrow> string"
  compensated_sum :: bool
  sort_with_nan :: "(double \<times> json) list \<Rightarrow> (double \<times> json) list"

definition bind_err :: "error + 'a \<Rightarrow> ('a \<Rightarrow> error + 'b) \<Rightarrow> error + 'b" where
  "bind_err m f = (case m of Inl e \<Rightarrow> Inl e | Inr x \<Rightarrow> f x)"

text \<open>A list comprehension whose element expression may raise: the first error wins.\<close>

fun map_err :: "('a \<Rightarrow> error + 'b) \<Rightarrow> 'a list \<Rightarrow> error + 'b list" where
  "map_err f [] = Inr []"
| "map_err f (x # xs) =
     (case f x of
        Inl e \<Rightarrow> Inl e
      | Inr y \<Rightarrow> (case map_err f xs of Inl e \<Rightarrow> Inl e | Inr ys \<Rightarrow> Inr (y # ys)))"

text \<open>\<^verbatim>\<open>d.get(key)\<close>: \<open>None\<close> for a missing key, AttributeError when \<open>d\<close> is no dictionary.\<close>

definition dict_get :: "json \<Rightarrow> string \<Rightarrow> error + json" where
  "dict_get d key =
     (case d of
        JObj kvs \<Rightarrow> Inr (case map_of kvs key of None \<Rightarrow> JNull | Some v \<Rightarrow> v)
      | _ \<Rightarrow> Inl AttributeError)"

text \<open>\<^verbatim>\<open>d[key]\<close>: KeyError for a missing key of a dictionary, TypeError for any other value
  subscripted with a string.\<close>

definition subscript :: "json \<Rightarrow> string \<Rightarrow> error + json" where
  "subscript d key =
     (case d of
        JObj kvs \<Rightarrow> (case map_of kvs key of None \<Rightarrow> Inl (KeyError key) | Some v \<Rightarrow> Inr v)
      | _ \<Rightarrow> Inl TypeError)"

text \<open>An integer as a float: the nearest double, OverflowError when that is out of range.\<close>

definition to_double :: "int \<Rightarrow> error + double" where
  "to_double i = (case rnd (of_int i) of Fin x \<Rightarrow> Inr (Fin x) | _ \<Rightarrow> Inl OverflowError)"

text \<open>\<^verbatim>\<open>float(val)\<close>.\<close>

definition py_float :: "pylib \<Rightarrow> json \<Rightarrow> error + double" where
  "py_float lib val =
     (case val of
        JInt i \<Rightarrow> to_double i
      | JNum d \<Rightarrow> Inr d
      | JBool b \<Rightarrow> Inr (Fin (if b then 1 else 0))
      | JStr s \<Rightarrow> (case str_to_float lib s of None \<Rightarrow> Inl ValueError | Some d \<Rightarrow> Inr d)
      | _ \<Rightarrow> Inl TypeError)"

text \<open>\<^verbatim>\<open>f * c\<close> for a float \<open>f\<close>: an integer or boolean \<open>c\<close> is converted to a float first.\<close>

definition py_mul :: "double \<Rightarrow> json \<Rightarrow> error + double" where
  "py_mul f c =
     (case c of
        JInt i \<Rightarrow> bind_err (to_double i) (\<lambda>d. Inr (fmul f d))
      | JNum d \<Rightarrow> Inr (fmul f d)
      | JBool b \<Rightarrow> Inr (fmul f (Fin (if b then 1 else 0)))
      | _ \<Rightarrow> Inl TypeError)"

text \<open>
  \<^verbatim>\<open>sum\<close> over floats, from the start value 0: the first float is added to the integer 0,
  the others to the running total, with or without compensation. The program never sums
  an empty sequence, for which Python returns the integer 0.
\<close>

fun neumaier :: "double \<Rightarrow> double \<Rightarrow> double list \<Rightarrow> double" where
  "neumaier f c [] = (if c \<noteq> Fin 0 \<and> is_finite c then fadd f c else f)"
| "neumaier f c (x # xs) =
     (let t = fadd f x
      in neumaier t
           (if fge (fabs f) (fabs x) then fadd c (fadd (fsub f t) x)
            else fadd c (fadd (fsub x t) f))
           xs)"

definition py_sum :: "pylib \<Rightarrow> double list \<Rightarrow> double" where
  "py_sum lib xs =
     (case xs of
        [] \<Rightarrow> Fin 0
      | x # rest \<Rightarrow>
          if compensated_sum lib then neumaier (fadd (Fin 0) x) (Fin 0) rest
          else foldl fadd (fadd (Fin 0) x) rest)"

section \<open>The scoring engine (server.py, duplicated verbatim in app.py)\<close>

definition FEATURE_KEYS :: "string list" where
  "FEATURE_KEYS =
     [''price'', ''range'', ''efficiency'', ''acceleration'', ''fast_charge'', ''seat_count'']"

text \<open>A float literal denotes the double nearest to it.\<close>

definition DEFAULT_COEFFS :: json where
  "DEFAULT_COEFFS = JObj
     [(''price'', JNum (rnd (- 0.5))),
      (''range'', JNum (rnd 0.8)),
      (''efficiency'', JNum (rnd (- 0.3))),
      (''acceleration'', JNum (rnd (- 0.5))),
      (''fast_charge'', JNum (rnd 0.6)),
      (''seat_count'', JNum (rnd 0.4))]"

definition get_val :: "pylib \<Rightarrow> json \<Rightarrow> string \<Rightarrow> error + double" where
  "get_val lib car_features key =
     bind_err (dict_get car_features key) (\<lambda>val.
       if val = JNull then Inr (Fin 0) else py_float lib val)"

definition scale_features :: "pylib \<Rightarrow> json \<Rightarrow> error + double list" where
  "scale_features lib car_features =
     bind_err (get_val lib car_features ''price'') (\<lambda>price.
     bind_err (get_val lib car_features ''range'') (\<lambda>range.
     bind_err (get_val lib car_features ''efficiency'') (\<lambda>efficiency.
     bind_err (get_val lib car_features ''acceleration'') (\<lambda>acceleration.
     bind_err (get_val lib car_features ''fast_charge'') (\<lambda>fast_charge.
     bind_err (get_val lib car_features ''seat_count'') (\<lambda>seat_count.
       Inr [fdiv price 1000, fdiv range 100, fdiv efficiency 10, acceleration,
            fdiv fast_charge 100, seat_count]))))))"

text \<open>The products \<^verbatim>\<open>f * c for f, c in zip(...)\<close>, in order; the first to raise ends the sum.\<close>

definition calculate_utility_score :: "pylib \<Rightarrow> json \<Rightarrow> json \<Rightarrow> error + double" where
  "calculate_utility_score lib car_features coeffs =
     bind_err (scale_features lib car_features) (\<lambda>scaled_features.
     bind_err (map_err (subscript coeffs) FEATURE_KEYS) (\<lambda>coeff_array.
     bind_err (map_err (\<lambda>fc. py_mul (fst fc) (snd fc)) (zip scaled_features coeff_array))
       (\<lambda>products. Inr (py_sum lib products))))"

section \<open>Coefficient lookup\<close>

text \<open>
  What \<^verbatim>\<open>redis.get\<close> hands back: bytes, or any other Python value (\<open>RVal JNull\<close> is
  \<open>None\<close>, \<open>RVal (JStr s)\<close> a string). The store itself is a function from keys to
  replies that may raise.
\<close>

datatype reply = RBytes string | RVal json

definition format_value :: "pylib \<Rightarrow> json \<Rightarrow> string" where
  "format_value lib v = (case v of JStr s \<Rightarrow> s | _ \<Rightarrow> str_of lib v)"

definition get_user_coefficients ::
  "pylib \<Rightarrow> (string \<Rightarrow> error + reply) \<Rightarrow> json \<Rightarrow> error + json" where
  "get_user_coefficients lib redis user_id =
     (let redis_key = ''params:'' @ format_value lib user_id in
      bind_err (redis redis_key) (\<lambda>data_str.
        if data_str = RVal JNull then Inr DEFAULT_COEFFS
        else
          bind_err (case data_str of
                      RBytes b \<Rightarrow> (case utf8_decode lib b of
                                     None \<Rightarrow> Inl UnicodeDecodeError
                                   | Some s \<Rightarrow> Inr (JStr s))
                    | RVal v \<Rightarrow> Inr v) (\<lambda>data_str.
          bind_err (case data_str of
                      JStr s \<Rightarrow> (case json_loads lib s of
                                   None \<Rightarrow> Inl JSONDecodeError
                                 | Some d \<Rightarrow> Inr d)
                    | v \<Rightarrow> Inr v) (\<lambda>data.
            case data of
              JObj kvs \<Rightarrow> Inr (case map_of kvs ''coeffs'' of
                                 None \<Rightarrow> DEFAULT_COEFFS
                               | Some c \<Rightarrow> c)
            | _ \<Rightarrow> Inl AttributeError))))"

section \<open>Ranking\<close>

text \<open>The running best utility starts at \<^verbatim>\<open>float('-inf')\<close>, the best car at \<open>None\<close>.\<close>

record rank_state =
  best_car :: json
  best_utility :: double
  all_results :: "json list"

definition init_state :: rank_state where
  "init_state = \<lparr>best_car = JNull, best_utility = NInf, all_results = []\<rparr>"

text \<open>\<^verbatim>\<open>{**car, "utility": u}\<close>: an existing key keeps its position and takes the new value,
  a new key goes last.\<close>

definition with_utility :: "json \<Rightarrow> json \<Rightarrow> error + json" where
  "with_utility car u =
     (case car of
        JObj kvs \<Rightarrow> Inr (JObj (AList.update ''utility'' u kvs))
      | _ \<Rightarrow> Inl TypeError)"

text \<open>\<^verbatim>\<open>for car in cars\<close>: a list yields its elements, a dictionary its keys, a string its
  characters; nothing else is iterable.\<close>

definition py_iter :: "json \<Rightarrow> error + json list" where
  "py_iter v =
     (case v of
        JArr xs \<Rightarrow> Inr xs
      | JObj kvs \<Rightarrow> Inr (map (\<lambda>kv. JStr (fst kv)) kvs)
      | JStr s \<Rightarrow> Inr (map (\<lambda>c. JStr [c]) s)
      | _ \<Rightarrow> Inl TypeError)"

text \<open>
  The loop of \<^verbatim>\<open>find_best_car\<close> (server.py) and of \<^verbatim>\<open>find_best_from_list\<close> (app.py).
  The two differ in one place: app.py stores \<^verbatim>\<open>round(utility, 4)\<close> in the record,
  server.py the utility itself; \<open>shown\<close> is that function. Both compare the unrounded utility.
\<close>

fun rank_loop ::
  "pylib \<Rightarrow> (double \<Rightarrow> double) \<Rightarrow> json \<Rightarrow> json list \<Rightarrow> rank_state \<Rightarrow> error + rank_state" where
  "rank_loop lib shown coeffs [] st = Inr st"
| "rank_loop lib shown coeffs (car # cars) st =
     bind_err (calculate_utility_score lib car coeffs) (\<lambda>utility.
     bind_err (with_utility car (JNum (shown utility))) (\<lambda>car_result.
       rank_loop lib shown coeffs cars
         (if fgt utility (best_utility st)
          then \<lparr>best_car = car_result, best_utility = utility,
                all_results = all_results st @ [car_result]\<rparr>
          else st\<lparr>all_results := all_results st @ [car_result]\<rparr>)))"

section \<open>The tool-protocol adapter (server.py)\<close>

definition handle_call_tool ::
  "pylib \<Rightarrow> (string \<Rightarrow> error + reply) \<Rightarrow> string \<Rightarrow> json \<Rightarrow> error + json" where
  "handle_call_tool lib redis name arguments =
     (if name = ''calculate_utility'' then
        bind_err (subscript arguments ''user_id'') (\<lambda>user_id.
        bind_err (get_user_coefficients lib redis user_id) (\<lambda>coeffs.
        bind_err (map_err (subscript arguments)
                    [''price'', ''range'', ''efficiency'', ''acceleration'',
                     ''fast_charge'', ''seat_count'']) (\<lambda>vals.
          let car_features = JObj (zip [''price'', ''range'', ''efficiency'',
                                        ''acceleration'', ''fast_charge'', ''seat_count''] vals)
          in bind_err (calculate_utility_score lib car_features coeffs) (\<lambda>utility.
               Inr (JObj [(''user_id'', user_id),
                          (''utility'', JNum utility),
                          (''coefficients_used'', coeffs),
                          (''car_features'', car_features)])))))
      else if name = ''find_best_car'' then
        bind_err (subscript arguments ''user_id'') (\<lambda>user_id.
        bind_err (subscript arguments ''cars'') (\<lambda>cars.
        bind_err (get_user_coefficients lib redis user_id) (\<lambda>coeffs.
        bind_err (py_iter cars) (\<lambda>car_list.
        bind_err (rank_loop lib (\<lambda>u. u) coeffs car_list init_state) (\<lambda>st.
          Inr (JObj [(''user_id'', user_id),
                     (''best_car'', best_car st),
                     (''all_cars_with_utilities'', JArr (all_results st)),
                     (''coefficients_used'', coeffs)]))))))
      else Inl ValueError)"

section \<open>The UI adapter (app.py)\<close>

text \<open>
  \<^verbatim>\<open>round(x, n)\<close> on a float, for \<open>n\<close> from 0 to a few hundred: the exact value of the
  double is rounded to \<open>n\<close> decimals, a tie to the even digit, and the double nearest to that
  decimal number is returned; an infinity or NaN is returned as it is.
\<close>

fun py_round :: "nat \<Rightarrow> double \<Rightarrow> double" where
  "py_round n (Fin x) = rnd (of_int (half_even (x * 10 ^ n)) / 10 ^ n)"
| "py_round n d = d"

text \<open>\<^verbatim>\<open>round(v, 4)\<close> on a coefficient value: an integer is returned as it is, a boolean as
  the integer it is.\<close>

definition round_value :: "json \<Rightarrow> error + json" where
  "round_value v =
     (case v of
        JNum r \<Rightarrow> Inr (JNum (py_round 4 r))
      | JInt i \<Rightarrow> Inr (JInt i)
      | JBool b \<Rightarrow> Inr (JInt (if b then 1 else 0))
      | _ \<Rightarrow> Inl TypeError)"

text \<open>\<^verbatim>\<open>{k: round(v, 4) for k, v in coeffs.items()}\<close>.\<close>

definition round_coeffs :: "json \<Rightarrow> error + json" where
  "round_coeffs coeffs =
     (case coeffs of
        JObj kvs \<Rightarrow>
          bind_err (map_err (\<lambda>kv. bind_err (round_value (snd kv)) (\<lambda>r. Inr (fst kv, r))) kvs)
            (\<lambda>items. Inr (JObj items))
      | _ \<Rightarrow> Inl AttributeError)"

text \<open>\<^verbatim>\<open>coeffs == DEFAULT_COEFFS\<close>: a dictionary with the same keys whose values equal the
  default floats as numbers.\<close>

definition num_eq :: "json \<Rightarrow> json \<Rightarrow> bool" where
  "num_eq v d =
     (case d of
        JNum x \<Rightarrow> (case v of
                     JNum r \<Rightarrow> r \<noteq> NaN \<and> r = x
                   | JInt i \<Rightarrow> Fin (of_int i) = x
                   | JBool b \<Rightarrow> Fin (if b then 1 else 0) = x
                   | _ \<Rightarrow> False)
      | _ \<Rightarrow> False)"

definition equals_default :: "json \<Rightarrow> bool" where
  "equals_default coeffs =
     (case (coeffs, DEFAULT_COEFFS) of
        (JObj kvs, JObj ds) \<Rightarrow>
          set (map fst kvs) = set (map fst ds) \<and>
          list_all (\<lambda>kd. case map_of kvs (fst kd) of
                            None \<Rightarrow> False
                          | Some v \<Rightarrow> num_eq v (snd kd)) ds
      | _ \<Rightarrow> False)"

text \<open>
  \<^verbatim>\<open>all_results.sort(key=lambda x: x["utility"], reverse=True)\<close>. The keys are computed
  first; the list is then reversed, sorted stably in ascending order and reversed again,
  which is how \<open>reverse=True\<close> keeps the sort stable. Every record the loop has built
  carries a float under \<open>utility\<close>, so the failing cases of the key function are never
  reached from \<open>find_best_from_list\<close>. Keys without a NaN are totally ordered, \<open>rank\<close> giving
  their order; with a NaN among the keys the outcome is the library's.
\<close>

definition sort_key_of :: "json \<Rightarrow> error + double" where
  "sort_key_of x =
     bind_err (subscript x ''utility'') (\<lambda>u.
       case u of JNum d \<Rightarrow> Inr d | JInt i \<Rightarrow> Inr (Fin (of_int i)) | _ \<Rightarrow> Inl TypeError)"

fun rank :: "double \<Rightarrow> int \<times> real" where
  "rank NInf = (- 1, 0)"
| "rank (Fin x) = (0, x)"
| "rank PInf = (1, 0)"
| "rank NaN = (2, 0)"

definition sort_desc :: "pylib \<Rightarrow> (double \<times> json) list \<Rightarrow> (double \<times> json) list" where
  "sort_desc lib kxs =
     (if list_ex (\<lambda>kx. fst kx = NaN) kxs then sort_with_nan lib kxs
      else rev (sort_key (\<lambda>kx. rank (fst kx)) (rev kxs)))"

definition sort_by_utility :: "pylib \<Rightarrow> json list \<Rightarrow> error + json list" where
  "sort_by_utility lib xs =
     bind_err (map_err sort_key_of xs) (\<lambda>keys.
       Inr (map snd (sort_desc lib (zip keys xs))))"

text \<open>The returned text is \<^verbatim>\<open>json.dumps\<close> of the result; \<open>Inl e\<close> stands for the payload
  \<^verbatim>\<open>{"error": ...}\<close> that the two \<^verbatim>\<open>except\<close> clauses return for the exception \<open>e\<close>.\<close>

definition find_best_from_list ::
  "pylib \<Rightarrow> (string \<Rightarrow> error + reply) \<Rightarrow> string \<Rightarrow> string \<Rightarrow> error + json" where
  "find_best_from_list lib redis user_id cars_json =
     bind_err (case json_loads lib cars_json of
                 None \<Rightarrow> Inl JSONDecodeError
               | Some v \<Rightarrow> Inr v) (\<lambda>cars.
     bind_err (get_user_coefficients lib redis (JStr user_id)) (\<lambda>coeffs.
     bind_err (py_iter cars) (\<lambda>car_list.
     bind_err (rank_loop lib (py_round 4) coeffs car_list init_state) (\<lambda>st.
     bind_err (sort_by_utility lib (all_results st)) (\<lambda>ranked.
     bind_err (round_coeffs coeffs) (\<lambda>rounded.
       Inr (JObj [(''user_id'', JStr user_id),
                  (''best_car'', best_car st),
                  (''all_cars_ranked'', JArr ranked),
                  (''coefficients_used'', rounded),
                  (''note'', JStr (if equals_default coeffs
                                   then ''Using default coefficients''
                                   else ''Using saved user preferences''))])))))))"

section \<open>Notions of the specification\<close>





text \<open>
  The scored candidate record of the specification: the raw record with the field
  \<open>utility\<close> set to the score as the adapter shows it (as computed, or rounded).
\<close>

definition scored :: "(double \<Rightarrow> double) \<Rightarrow> (string \<times> json) list \<Rightarrow> double \<Rightarrow> json" where
  "scored shown raw u = JObj (AList.update ''utility'' (JNum (shown u)) raw)"

definition scored_records ::
  "(double \<Rightarrow> double) \<Rightarrow> (string \<times> json) list list \<Rightarrow> double list \<Rightarrow> json list" where
  "scored_records shown raws us = map (\<lambda>p. scored shown (fst p) (snd p)) (zip raws us)"

text \<open>One iteration of the ranking loop, once the utility and the scored record are known.\<close>

definition record_result :: "double \<times> json \<Rightarrow> rank_state \<Rightarrow> rank_state" where
  "record_result ur st =
     (if fgt (fst ur) (best_utility st)
      then \<lparr>best_car = snd ur, best_utility = fst ur,
            all_results = all_results st @ [snd ur]\<rparr>
      else st\<lparr>all_results := all_results st @ [snd ur]\<rparr>)"

text \<open>A sequence of records is non-increasing in the \<open>utility\<close> field: each record's utility
  is \<^verbatim>\<open>>=\<close> that of every later record.\<close>

definition descending :: "json list \<Rightarrow> bool" where
  "descending xs =
     (case map_err sort_key_of xs of Inl e \<Rightarrow> False | Inr ks \<Rightarrow> sorted_wrt fge ks)"

section \<open>Example data\<close>

text \<open>The car of \<^verbatim>\<open>test_local.py\<close>.\<close>

definition tesla :: "(string \<times> json) list" where
  "tesla =
     [(''price'', JInt 45000), (''range'', JInt 500), (''efficiency'', JInt 150),
      (''acceleration'', JNum (rnd 6.1)), (''fast_charge'', JInt 170), (''seat_count'', JInt 5)]"



text \<open>
  The examples need a value for the library parameter. \<open>example_lib\<close> answers as Python does
  on the arguments the examples hand it: \<^verbatim>\<open>json.loads\<close> on the texts \<^verbatim>\<open>[]\<close>, \<^verbatim>\<open>{}\<close>, the
  cars text below and \<^verbatim>\<open>not json\<close> (which Python rejects as well), decoding on the bytes
  of \<^verbatim>\<open>{}\<close>, \<^verbatim>\<open>float\<close> on \<^verbatim>\<open>1.5\<close> and \<^verbatim>\<open>str\<close> on \<open>None\<close>; its \<^verbatim>\<open>sum\<close> is the compensated
  one. On any other argument, and for a sort over a NaN key, it is a placeholder, and no
  example reaches it there.
  The cars are those of app.py's example list, the Tesla a second time under another name so
  that two candidates tie; \<open>example_us\<close> are their utilities under the default coefficients.
\<close>

definition vw_id4 :: "(string \<times> json) list" where
  "vw_id4 =
     [(''name'', JStr ''Volkswagen ID.4''), (''price'', JInt 40000), (''range'', JInt 420),
      (''efficiency'', JInt 180), (''acceleration'', JNum (rnd 8.5)),
      (''fast_charge'', JInt 125), (''seat_count'', JInt 5)]"

definition tesla_model3 :: "(string \<times> json) list" where
  "tesla_model3 =
     [(''name'', JStr ''Tesla Model 3''), (''price'', JInt 45000), (''range'', JInt 500),
      (''efficiency'', JInt 150), (''acceleration'', JNum (rnd 6.1)),
      (''fast_charge'', JInt 170), (''seat_count'', JInt 5)]"

definition tesla_used :: "(string \<times> json) list" where
  "tesla_used =
     [(''name'', JStr ''Tesla Model 3 (used)''), (''price'', JInt 45000), (''range'', JInt 500),
      (''efficiency'', JInt 150), (''acceleration'', JNum (rnd 6.1)),
      (''fast_charge'', JInt 170), (''seat_count'', JInt 5)]"

definition example_cars :: "(string \<times> json) list list" where
  "example_cars = [vw_id4, tesla_model3, tesla_used]"

definition example_us :: "double list" where
  "example_us = [rnd (- 23.54), rnd (- 23.03), rnd (- 23.03)]"

definition example_cars_json :: string where
  "example_cars_json =
     ''[{\"name\": \"Volkswagen ID.4\", \"price\": 40000, \"range\": 420, '' @
     ''\"efficiency\": 180, \"acceleration\": 8.5, \"fast_charge\": 125, \"seat_count\": 5}, '' @
     ''{\"name\": \"Tesla Model 3\", \"price\": 45000, \"range\": 500, '' @
     ''\"efficiency\": 150, \"acceleration\": 6.1, \"fast_charge\": 170, \"seat_count\": 5}, '' @
     ''{\"name\": \"Tesla Model 3 (used)\", \"price\": 45000, \"range\": 500, '' @
     ''\"efficiency\": 150, \"acceleration\": 6.1, \"fast_charge\": 170, \"seat_count\": 5}]''"

definition example_loads :: "string \<Rightarrow> json option" where
  "example_loads s =
     (if s = ''[]'' then Some (JArr [])
      else if s = ''{}'' then Some (JObj [])
      else if s = example_cars_json then Some (JArr (map JObj example_cars))
      else None)"

definition example_decode :: "string \<Rightarrow> string option" where
  "example_decode b = (if b = ''{}'' then Some ''{}'' else None)"

definition example_float :: "string \<Rightarrow> double option" where
  "example_float s = (if s = ''1.5'' then Some (Fin 1.5) else None)"

definition example_str :: "json \<Rightarrow> string" where
  "example_str v = ''None''"

definition example_sort :: "(double \<times> json) list \<Rightarrow> (double \<times> json) list" where
  "example_sort kxs = kxs"

definition example_lib :: pylib where
  "example_lib = \<lparr>json_loads = example_loads, utf8_decode = example_decode,
                   str_to_float = example_float, str_of = example_str,
                   compensated_sum = True, sort_with_nan = example_sort\<rparr>"

text \<open>
  A store with six users: \<open>alice\<close>'s value is no JSON text, \<open>carol\<close>'s and \<open>dave\<close>'s are the
  empty object (as text and as bytes), \<open>erin\<close>'s arrives already parsed and has a coefficient
  field with a single key, \<open>frank\<close>'s arrives already parsed and has other fields but no
  coefficient field, \<open>gail\<close>'s coefficients are integers, all 0 but the last. Every other
  key has no value.
\<close>

definition example_store :: "string \<Rightarrow> error + reply" where
  "example_store key =
     (if key = ''params:alice'' then Inr (RVal (JStr ''not json''))
      else if key = ''params:carol'' then Inr (RVal (JStr ''{}''))
      else if key = ''params:dave'' then Inr (RBytes ''{}'')
      else if key = ''params:erin'' then
        Inr (RVal (JObj [(''coeffs'', JObj [(''price'', JInt 1)]), (''trained'', JBool True)]))
      else if key = ''params:frank'' then
        Inr (RVal (JObj [(''price'', JNum (Fin 2.5)), (''trained'', JBool True)]))
      else if key = ''params:gail'' then
        Inr (RVal (JObj [(''coeffs'', JObj
          [(''price'', JInt 0), (''range'', JInt 0), (''efficiency'', JInt 0),
           (''acceleration'', JInt 0), (''fast_charge'', JInt 0), (''seat_count'', JInt (- 2))])]))
      else Inr (RVal JNull))"


definition huge_seats :: "(string \<times> json) list" where
  "huge_seats =
     [(''price'', JInt 0), (''range'', JInt 0), (''efficiency'', JInt 0),
      (''acceleration'', JInt 0), (''fast_charge'', JInt 0), (''seat_count'', JInt (2 ^ 1023))]"

section \<open>Basic facts\<close>

lemma bind_err_Inl [simp]: "bind_err (Inl e) f = Inl e"
  by (simp add: bind_err_def)

lemma bind_err_Inr [simp]: "bind_err (Inr x) f = f x"
  by (simp add: bind_err_def)

lemma bind_err_eq_Inr: "bind_err m f = Inr y \<longleftrightarrow> (\<exists>x. m = Inr x \<and> f x = Inr y)"
  by (cases m) simp_all

section \<open>Rounding to a double\<close>

lemma exp_search_eq:
  assumes "k \<le> n" and "0 < k \<longrightarrow> 2 powi (int k - 1022) \<le> a" and "a < 2 powi (int k - 1021)"
  shows "exp_search n a = int k - 1022"
  using assms
proof (induction n)
  case 0
  then show ?case by simp
next
  case (Suc n)
  show ?case
  proof (cases "k = Suc n")
    case True
    with Suc.prems show ?thesis by simp
  next
    case False
    with Suc.prems have k: "k \<le> n" by simp
    have "(2::real) powi (int k - 1021) \<le> 2 powi (int (Suc n) - 1022)"
      using k by (intro power_int_increasing) auto
    with Suc.prems(3) have "\<not> 2 powi (int (Suc n) - 1022) \<le> a" by linarith
    with Suc.IH[OF k Suc.prems(2,3)] show ?thesis by simp
  qed
qed

lemma exponent_eq:
  assumes "- 1022 \<le> e" and "e \<le> 1023" and "e = - 1022 \<or> 2 powi e \<le> a" and "a < 2 powi (e + 1)"
  shows "exponent a = e"
proof -
  have "exp_search 2045 a = int (nat (e + 1022)) - 1022"
    using assms by (intro exp_search_eq) (auto simp: algebra_simps)
  with assms(1) show ?thesis by (simp add: exponent_def)
qed

lemma exponent_top:
  assumes "2 powi 1023 \<le> a"
  shows "exponent a = 1023"
proof -
  have "exp_search (Suc 2044) a =
          (if 2 powi (int (Suc 2044) - 1022) \<le> a then int (Suc 2044) - 1022
           else exp_search 2044 a)"
    by (rule exp_search.simps(2))
  then show ?thesis
    using assms by (simp add: exponent_def)
qed

text \<open>How a rounding is computed once the exponent is known.\<close>

lemma rnd_eval:
  assumes "- 1022 \<le> e" and "e \<le> 1023" and "e = - 1022 \<or> 2 powi e \<le> \<bar>x\<bar>"
      and "\<bar>x\<bar> < 2 powi (e + 1)"
      and "half_even (x / 2 powi (e - 52)) = n"
      and "\<bar>of_int n\<bar> * 2 powi (e - 52) < (2::real) powi 1024"
  shows "rnd x = Fin (of_int n * 2 powi (e - 52))"
  using assms(5,6) exponent_eq[OF assms(1-4)] by (simp add: rnd_def Let_def)

lemma half_even_ge:
  assumes "of_int k \<le> y"
  shows "k \<le> half_even y"
proof -
  from assms have "k \<le> \<lfloor>y\<rfloor>" by (simp add: le_floor_iff)
  then show ?thesis by (simp add: half_even_def Let_def)
qed

lemma half_even_le:
  assumes "y \<le> of_int k"
  shows "half_even y \<le> k"
proof (cases "y = of_int \<lfloor>y\<rfloor>")
  case True
  with assms have "\<lfloor>y\<rfloor> \<le> k" by linarith
  with True show ?thesis by (simp add: half_even_def Let_def)
next
  case False
  then have "of_int \<lfloor>y\<rfloor> < y" by linarith
  with assms have "\<lfloor>y\<rfloor> + 1 \<le> k" by linarith
  then show ?thesis by (simp add: half_even_def Let_def)
qed

lemma rnd_pos_overflow:
  assumes "2 powi 1024 \<le> x"
  shows "rnd x = PInf"
proof -
  have pos: "0 < x"
    using assms by (smt (verit) zero_less_power_int)
  have "(2::real) powi 1023 \<le> 2 powi 1024"
    by (intro power_int_increasing) auto
  with assms have "exponent x = 1023"
    by (intro exponent_top) simp
  with pos have e: "exponent \<bar>x\<bar> = 1023"
    by simp
  have "of_int (2 ^ 53) \<le> x / 2 powi 971"
    using assms by (simp add: field_simps)
  from half_even_ge[OF this] have "(2::real) ^ 53 \<le> of_int (half_even (x / 2 powi 971))"
    by (metis of_int_le_iff of_int_numeral of_int_power)
  then have "2 powi 1024 \<le> \<bar>of_int (half_even (x / 2 powi 971))\<bar> * (2::real) powi 971"
    by (simp add: field_simps)
  with pos show ?thesis
    unfolding rnd_def Let_def e by simp
qed

lemma rnd_neg_overflow:
  assumes "x \<le> - (2 powi 1024)"
  shows "rnd x = NInf"
proof -
  have neg: "x < 0"
    using assms by (smt (verit) zero_less_power_int)
  have "(2::real) powi 1023 \<le> 2 powi 1024"
    by (intro power_int_increasing) auto
  with assms have "exponent (- x) = 1023"
    by (intro exponent_top) simp
  with neg have e: "exponent \<bar>x\<bar> = 1023"
    by simp
  have "x / 2 powi 971 \<le> of_int (- (2 ^ 53))"
    using assms by (simp add: field_simps)
  from half_even_le[OF this] have "of_int (half_even (x / 2 powi 971)) \<le> - ((2::real) ^ 53)"
    by (metis of_int_le_iff of_int_minus of_int_numeral of_int_power)
  then have "2 powi 1024 \<le> \<bar>of_int (half_even (x / 2 powi 971))\<bar> * (2::real) powi 971"
    by (simp add: field_simps)
  with neg show ?thesis
    unfolding rnd_def Let_def e by simp
qed

lemma rnd_not_NaN [simp]: "rnd x \<noteq> NaN"
  by (simp add: rnd_def Let_def)

text \<open>The roundings the examples need.\<close>

lemma rnd_value_1: "rnd (- (1 / 2)) = Fin (- (1 / 2))"
  by (rule rnd_eval[where e = "- 1" and n = "- 4503599627370496", THEN trans])
     (simp_all add: half_even_def)

lemma rnd_value_2: "rnd (4 / 5) = Fin (3602879701896397 / 4503599627370496)"
  by (rule rnd_eval[where e = "- 1" and n = "7205759403792794", THEN trans])
     (simp_all add: half_even_def)

lemma rnd_value_3: "rnd (- (3 / 10)) = Fin (- (5404319552844595 / 18014398509481984))"
  by (rule rnd_eval[where e = "- 2" and n = "- 5404319552844595", THEN trans])
     (simp_all add: half_even_def)

lemma rnd_value_4: "rnd (3 / 5) = Fin (5404319552844595 / 9007199254740992)"
  by (rule rnd_eval[where e = "- 1" and n = "5404319552844595", THEN trans])
     (simp_all add: half_even_def)

lemma rnd_value_5: "rnd (2 / 5) = Fin (3602879701896397 / 9007199254740992)"
  by (rule rnd_eval[where e = "- 2" and n = "7205759403792794", THEN trans])
     (simp_all add: half_even_def)

lemma rnd_value_6: "rnd (61 / 10) = Fin (3433994715870003 / 562949953421312)"
  by (rule rnd_eval[where e = "2" and n = "6867989431740006", THEN trans])
     (simp_all add: half_even_def)

lemma rnd_value_7: "rnd (17 / 2) = Fin (17 / 2)"
  by (rule rnd_eval[where e = "3" and n = "4785074604081152", THEN trans])
     (simp_all add: half_even_def)

lemma rnd_value_8: "rnd 45000 = Fin 45000"
  by (rule rnd_eval[where e = "15" and n = "6184752906240000", THEN trans])
     (simp_all add: half_even_def)

lemma rnd_value_9: "rnd 45 = Fin 45"
  by (rule rnd_eval[where e = "5" and n = "6333186975989760", THEN trans])
     (simp_all add: half_even_def)

lemma rnd_value_10: "rnd 500 = Fin 500"
  by (rule rnd_eval[where e = "8" and n = "8796093022208000", THEN trans])
     (simp_all add: half_even_def)

lemma rnd_value_11: "rnd 5 = Fin 5"
  by (rule rnd_eval[where e = "2" and n = "5629499534213120", THEN trans])
     (simp_all add: half_even_def)

lemma rnd_value_12: "rnd 150 = Fin 150"
  by (rule rnd_eval[where e = "7" and n = "5277655813324800", THEN trans])
     (simp_all add: half_even_def)

lemma rnd_value_13: "rnd 15 = Fin 15"
  by (rule rnd_eval[where e = "3" and n = "8444249301319680", THEN trans])
     (simp_all add: half_even_def)

lemma rnd_value_14: "rnd 170 = Fin 170"
  by (rule rnd_eval[where e = "7" and n = "5981343255101440", THEN trans])
     (simp_all add: half_even_def)

lemma rnd_value_15: "rnd (17 / 10) = Fin (7656119366529843 / 4503599627370496)"
  by (rule rnd_eval[where e = "0" and n = "7656119366529843", THEN trans])
     (simp_all add: half_even_def)

lemma rnd_value_16: "rnd (- (45 / 2)) = Fin (- (45 / 2))"
  by (rule rnd_eval[where e = "4" and n = "- 6333186975989760", THEN trans])
     (simp_all add: half_even_def)

lemma rnd_value_17: "rnd (18014398509481985 / 4503599627370496) = Fin 4"
  by (rule rnd_eval[where e = "2" and n = "4503599627370496", THEN trans])
     (simp_all add: half_even_def)

lemma rnd_value_18: "rnd (- (81064793292668925 / 18014398509481984)) = Fin (- (9 / 2))"
  by (rule rnd_eval[where e = "2" and n = "- 5066549580791808", THEN trans])
     (simp_all add: half_even_def)

lemma rnd_value_19: "rnd (- (3433994715870003 / 1125899906842624)) = Fin (- (3433994715870003 / 1125899906842624))"
  by (rule rnd_eval[where e = "1" and n = "- 6867989431740006", THEN trans])
     (simp_all add: half_even_def)

lemma rnd_value_20: "rnd (41376115591449405052764608748585 / 40564819207303340847894502572032) = Fin (2296835809958953 / 2251799813685248)"
  by (rule rnd_eval[where e = "0" and n = "4593671619917906", THEN trans])
     (simp_all add: half_even_def)

lemma rnd_value_21: "rnd (18014398509481985 / 9007199254740992) = Fin 2"
  by (rule rnd_eval[where e = "1" and n = "4503599627370496", THEN trans])
     (simp_all add: half_even_def)

lemma rnd_value_22: "rnd (- (37 / 2)) = Fin (- (37 / 2))"
  by (rule rnd_eval[where e = "4" and n = "- 5207287069147136", THEN trans])
     (simp_all add: half_even_def)

lemma rnd_value_23: "rnd (- 23) = Fin (- 23)"
  by (rule rnd_eval[where e = "4" and n = "- 6473924464345088", THEN trans])
     (simp_all add: half_even_def)

lemma rnd_value_24: "rnd (- (29329692573250355 / 1125899906842624)) = Fin (- (7332423143312589 / 281474976710656))"
  by (rule rnd_eval[where e = "4" and n = "- 7332423143312589", THEN trans])
     (simp_all add: half_even_def)

lemma rnd_value_25: "rnd (- (56362549336541759 / 2251799813685248)) = Fin (- (880664833383465 / 35184372088832))"
  by (rule rnd_eval[where e = "4" and n = "- 7045318667067720", THEN trans])
     (simp_all add: half_even_def)

lemma rnd_value_26: "rnd (- (810296089205801 / 35184372088832)) = Fin (- (810296089205801 / 35184372088832))"
  by (rule rnd_eval[where e = "4" and n = "- 6482368713646408", THEN trans])
     (simp_all add: half_even_def)

lemma rnd_value_27: "rnd (- 4) = Fin (- 4)"
  by (rule rnd_eval[where e = "2" and n = "- 4503599627370496", THEN trans])
     (simp_all add: half_even_def)

lemma rnd_value_28: "rnd 0 = Fin 0"
  by (rule rnd_eval[where e = "- 1022" and n = "0", THEN trans])
     (simp_all add: half_even_def)

lemma rnd_value_29: "rnd (9 / 2) = Fin (9 / 2)"
  by (rule rnd_eval[where e = "2" and n = "5066549580791808", THEN trans])
     (simp_all add: half_even_def)

lemma rnd_value_30: "rnd (858498678967501 / 281474976710656) = Fin (858498678967501 / 281474976710656)"
  by (rule rnd_eval[where e = "1" and n = "6867989431740008", THEN trans])
     (simp_all add: half_even_def)

lemma rnd_value_31: "rnd (1 / 1125899906842624) = Fin (1 / 1125899906842624)"
  by (rule rnd_eval[where e = "- 50" and n = "4503599627370496", THEN trans])
     (simp_all add: half_even_def)

lemma rnd_value_32: "rnd (- (287104476244869 / 281474976710656)) = Fin (- (287104476244869 / 281474976710656))"
  by (rule rnd_eval[where e = "0" and n = "- 4593671619917904", THEN trans])
     (simp_all add: half_even_def)

lemma rnd_value_33: "rnd (1 / 2251799813685248) = Fin (1 / 2251799813685248)"
  by (rule rnd_eval[where e = "- 51" and n = "4503599627370496", THEN trans])
     (simp_all add: half_even_def)

lemma rnd_value_34: "rnd (3 / 2251799813685248) = Fin (3 / 2251799813685248)"
  by (rule rnd_eval[where e = "- 50" and n = "6755399441055744", THEN trans])
     (simp_all add: half_even_def)

lemma rnd_value_35: "rnd (- 2) = Fin (- 2)"
  by (rule rnd_eval[where e = "1" and n = "- 4503599627370496", THEN trans])
     (simp_all add: half_even_def)

lemma rnd_value_36: "rnd (- (51858949709171261 / 2251799813685248)) = Fin (- (810296089205801 / 35184372088832))"
  by (rule rnd_eval[where e = "4" and n = "- 6482368713646408", THEN trans])
     (simp_all add: half_even_def)

lemma rnd_value_37: "rnd (- (2303 / 100)) = Fin (- (810296089205801 / 35184372088832))"
  by (rule rnd_eval[where e = "4" and n = "- 6482368713646408", THEN trans])
     (simp_all add: half_even_def)

lemma rnd_value_38: "rnd 40000 = Fin 40000"
  by (rule rnd_eval[where e = "15" and n = "5497558138880000", THEN trans])
     (simp_all add: half_even_def)

lemma rnd_value_39: "rnd 40 = Fin 40"
  by (rule rnd_eval[where e = "5" and n = "5629499534213120", THEN trans])
     (simp_all add: half_even_def)

lemma rnd_value_40: "rnd 420 = Fin 420"
  by (rule rnd_eval[where e = "8" and n = "7388718138654720", THEN trans])
     (simp_all add: half_even_def)

lemma rnd_value_41: "rnd (21 / 5) = Fin (4728779608739021 / 1125899906842624)"
  by (rule rnd_eval[where e = "2" and n = "4728779608739021", THEN trans])
     (simp_all add: half_even_def)

lemma rnd_value_42: "rnd 180 = Fin 180"
  by (rule rnd_eval[where e = "7" and n = "6333186975989760", THEN trans])
     (simp_all add: half_even_def)

lemma rnd_value_43: "rnd 18 = Fin 18"
  by (rule rnd_eval[where e = "4" and n = "5066549580791808", THEN trans])
     (simp_all add: half_even_def)

lemma rnd_value_44: "rnd 125 = Fin 125"
  by (rule rnd_eval[where e = "6" and n = "8796093022208000", THEN trans])
     (simp_all add: half_even_def)

lemma rnd_value_45: "rnd (5 / 4) = Fin (5 / 4)"
  by (rule rnd_eval[where e = "0" and n = "5629499534213120", THEN trans])
     (simp_all add: half_even_def)

lemma rnd_value_46: "rnd (- 20) = Fin (- 20)"
  by (rule rnd_eval[where e = "4" and n = "- 5629499534213120", THEN trans])
     (simp_all add: half_even_def)

lemma rnd_value_47: "rnd (17037224067067404822447553207337 / 5070602400912917605986812821504) = Fin (3783023686991217 / 1125899906842624)"
  by (rule rnd_eval[where e = "1" and n = "7566047373982434", THEN trans])
     (simp_all add: half_even_def)

lemma rnd_value_48: "rnd (- (48638875975601355 / 9007199254740992)) = Fin (- (6079859496950169 / 1125899906842624))"
  by (rule rnd_eval[where e = "2" and n = "- 6079859496950169", THEN trans])
     (simp_all add: half_even_def)

lemma rnd_value_49: "rnd (- (17 / 4)) = Fin (- (17 / 4))"
  by (rule rnd_eval[where e = "2" and n = "- 4785074604081152", THEN trans])
     (simp_all add: half_even_def)

lemma rnd_value_50: "rnd (27021597764222975 / 36028797018963968) = Fin (3 / 4)"
  by (rule rnd_eval[where e = "- 1" and n = "6755399441055744", THEN trans])
     (simp_all add: half_even_def)

lemma rnd_value_51: "rnd (- (18734974449861263 / 1125899906842624)) = Fin (- (1170935903116329 / 70368744177664))"
  by (rule rnd_eval[where e = "4" and n = "- 4683743612465316", THEN trans])
     (simp_all add: half_even_def)

lemma rnd_value_52: "rnd (- (24814833946811433 / 1125899906842624)) = Fin (- (3101854243351429 / 140737488355328))"
  by (rule rnd_eval[where e = "4" and n = "- 6203708486702858", THEN trans])
     (simp_all add: half_even_def)

lemma rnd_value_53: "rnd (- (3699988568861573 / 140737488355328)) = Fin (- (3699988568861573 / 140737488355328))"
  by (rule rnd_eval[where e = "4" and n = "- 7399977137723146", THEN trans])
     (simp_all add: half_even_def)

lemma rnd_value_54: "rnd (- (3594435452595077 / 140737488355328)) = Fin (- (3594435452595077 / 140737488355328))"
  by (rule rnd_eval[where e = "4" and n = "- 7188870905190154", THEN trans])
     (simp_all add: half_even_def)

lemma rnd_value_55: "rnd (- (3312960475884421 / 140737488355328)) = Fin (- (3312960475884421 / 140737488355328))"
  by (rule rnd_eval[where e = "4" and n = "- 6625920951768842", THEN trans])
     (simp_all add: half_even_def)

lemma rnd_value_56: "rnd (- (236438980436951 / 70368744177664)) = Fin (- (236438980436951 / 70368744177664))"
  by (rule rnd_eval[where e = "1" and n = "- 7566047373982432", THEN trans])
     (simp_all add: half_even_def)

lemma rnd_value_57: "rnd (759982437118771 / 140737488355328) = Fin (759982437118771 / 140737488355328)"
  by (rule rnd_eval[where e = "2" and n = "6079859496950168", THEN trans])
     (simp_all add: half_even_def)

lemma rnd_value_58: "rnd (- (1 / 1125899906842624)) = Fin (- (1 / 1125899906842624))"
  by (rule rnd_eval[where e = "- 50" and n = "- 4503599627370496", THEN trans])
     (simp_all add: half_even_def)

lemma rnd_value_59: "rnd (17 / 4) = Fin (17 / 4)"
  by (rule rnd_eval[where e = "2" and n = "4785074604081152", THEN trans])
     (simp_all add: half_even_def)

lemma rnd_value_60: "rnd (- (3 / 4)) = Fin (- (3 / 4))"
  by (rule rnd_eval[where e = "- 1" and n = "- 6755399441055744", THEN trans])
     (simp_all add: half_even_def)

lemma rnd_value_61: "rnd (- (1177 / 50)) = Fin (- (3312960475884421 / 140737488355328))"
  by (rule rnd_eval[where e = "4" and n = "- 6625920951768842", THEN trans])
     (simp_all add: half_even_def)

lemma rnd_value_62: "rnd 1 = Fin 1"
  by (rule rnd_eval[where e = "0" and n = "4503599627370496", THEN trans])
     (simp_all add: half_even_def)

lemma rnd_value_63: "rnd 2 = Fin 2"
  by (rule rnd_eval[where e = "1" and n = "4503599627370496", THEN trans])
     (simp_all add: half_even_def)

lemma rnd_value_64: "rnd (3783023686991217 / 1125899906842624) = Fin (3783023686991217 / 1125899906842624)"
  by (rule rnd_eval[where e = "1" and n = "7566047373982434", THEN trans])
     (simp_all add: half_even_def)

lemma rnd_value_65: "rnd (84 / 25) = Fin (7566047373982433 / 2251799813685248)"
  by (rule rnd_eval[where e = "1" and n = "7566047373982433", THEN trans])
     (simp_all add: half_even_def)

lemma rnd_value_66: "rnd 1000000000000000000000000000000000000000000000000000000000000000000000000000000000000000000000000000000000000000000000000000000000000000000000000000000000000000000000000000000000000000000000000000000000000000000000000000000000000000000000000000000000000000000000000000000000000000000000000000000000000000000000 = PInf"
  by (rule rnd_pos_overflow) simp

lemma rnd_value_67: "rnd 89884656743115795386465259539451236680898848947115328636715040578866337902750481566354238661203768010560056939935696678829394884407208311246423715319737062188883946712432742638151109800623047059726541476042502884419075341171231440736956555270413618581675255342293149119973622969239858152417678164812112068608 = Fin 89884656743115795386465259539451236680898848947115328636715040578866337902750481566354238661203768010560056939935696678829394884407208311246423715319737062188883946712432742638151109800623047059726541476042502884419075341171231440736956555270413618581675255342293149119973622969239858152417678164812112068608"
  by (rule rnd_eval[where e = "1023" and n = "4503599627370496", THEN trans])
     (simp_all add: half_even_def)

lemma rnd_value_68: "rnd (- 179769313486231590772930519078902473361797697894230657273430081157732675805500963132708477322407536021120113879871393357658789768814416622492847430639474124377767893424865485276302219601246094119453082952085005768838150682342462881473913110540827237163350510684586298239947245938479716304835356329624224137216) = NInf"
  by (rule rnd_neg_overflow) simp

lemmas rnd_values =
  rnd_value_1 rnd_value_2 rnd_value_3 rnd_value_4 rnd_value_5 rnd_value_6
  rnd_value_7 rnd_value_8 rnd_value_9 rnd_value_10 rnd_value_11 rnd_value_12
  rnd_value_13 rnd_value_14 rnd_value_15 rnd_value_16 rnd_value_17 rnd_value_18
  rnd_value_19 rnd_value_20 rnd_value_21 rnd_value_22 rnd_value_23 rnd_value_24
  rnd_value_25 rnd_value_26 rnd_value_27 rnd_value_28 rnd_value_29 rnd_value_30
  rnd_value_31 rnd_value_32 rnd_value_33 rnd_value_34 rnd_value_35 rnd_value_36
  rnd_value_37 rnd_value_38 rnd_value_39 rnd_value_40 rnd_value_41 rnd_value_42
  rnd_value_43 rnd_value_44 rnd_value_45 rnd_value_46 rnd_value_47 rnd_value_48
  rnd_value_49 rnd_value_50 rnd_value_51 rnd_value_52 rnd_value_53 rnd_value_54
  rnd_value_55 rnd_value_56 rnd_value_57 rnd_value_58 rnd_value_59 rnd_value_60
  rnd_value_61 rnd_value_62 rnd_value_63 rnd_value_64 rnd_value_65 rnd_value_66
  rnd_value_67 rnd_value_68
section \<open>Reading and scaling features\<close>

lemma get_val_JObj:
  "get_val lib (JObj kvs) k =
     (case map_of kvs k of
        None \<Rightarrow> Inr (Fin 0)
      | Some v \<Rightarrow> if v = JNull then Inr (Fin 0) else py_float lib v)"
  by (simp add: get_val_def dict_get_def split: option.split)



lemma scale_features_Inr:
  "scale_features lib car = Inr scaled \<longleftrightarrow>
     (\<exists>p r e a f s.
        get_val lib car ''price'' = Inr p \<and> get_val lib car ''range'' = Inr r \<and>
        get_val lib car ''efficiency'' = Inr e \<and> get_val lib car ''acceleration'' = Inr a \<and>
        get_val lib car ''fast_charge'' = Inr f \<and> get_val lib car ''seat_count'' = Inr s \<and>
        scaled = [fdiv p 1000, fdiv r 100, fdiv e 10, a, fdiv f 100, s])"
  by (auto simp: scale_features_def bind_err_eq_Inr)




lemma tesla_scaled:
  "scale_features lib (JObj tesla) = Inr [Fin 45, Fin 5, Fin 15, rnd 6.1, rnd 1.7, Fin 5]"
  by (simp add: tesla_def scale_features_def get_val_JObj py_float_def to_double_def rnd_values)

lemma tesla_score:
  "calculate_utility_score lib (JObj tesla) DEFAULT_COEFFS = Inr (rnd (- 23.03))"
proof (cases "compensated_sum lib")
  case True
  then show ?thesis
    by (simp add: calculate_utility_score_def tesla_scaled FEATURE_KEYS_def DEFAULT_COEFFS_def
          subscript_def py_mul_def py_sum_def fsub_def fge_def Let_def rnd_values)
next
  case False
  then show ?thesis
    by (simp add: calculate_utility_score_def tesla_scaled FEATURE_KEYS_def DEFAULT_COEFFS_def
          subscript_def py_mul_def py_sum_def rnd_values)
qed

section \<open>Scaling and scoring\<close>




text \<open>
  C7. For every raw candidate record and each of the six feature keys, if the key is
  missing from the record or its value is null, reading it gives 0.0; and when the other
  five keys can be read, scaling returns a vector of six components whose component for that
  key is 0.0, whatever the key's divisor.
\<close>

theorem missing_or_null_scales_to_zero:
  assumes i: "i < length FEATURE_KEYS"
      and absent: "map_of raw (FEATURE_KEYS ! i) = None \<or> map_of raw (FEATURE_KEYS ! i) = Some JNull"
      and others: "\<forall>j<length FEATURE_KEYS. j \<noteq> i \<longrightarrow>
                     (\<exists>v. get_val lib (JObj raw) (FEATURE_KEYS ! j) = Inr v)"
  shows "get_val lib (JObj raw) (FEATURE_KEYS ! i) = Inr (Fin 0) \<and>
         (\<exists>scaled. scale_features lib (JObj raw) = Inr scaled \<and>
            length scaled = length FEATURE_KEYS \<and> scaled ! i = Fin 0)"
proof -
  have zero: "get_val lib (JObj raw) (FEATURE_KEYS ! i) = Inr (Fin 0)"
    using absent by (auto simp: get_val_JObj)
  have all: "\<exists>v. get_val lib (JObj raw) (FEATURE_KEYS ! j) = Inr v \<and> (j = i \<longrightarrow> v = Fin 0)"
    if "j < length FEATURE_KEYS" for j
    using that others zero by (cases "j = i") auto
  have len: "length FEATURE_KEYS = 6"
    by (simp add: FEATURE_KEYS_def)
  from all[of 0] obtain p where p: "get_val lib (JObj raw) ''price'' = Inr p" "i = 0 \<longrightarrow> p = Fin 0"
    by (auto simp: FEATURE_KEYS_def)
  from all[of 1] obtain r where r: "get_val lib (JObj raw) ''range'' = Inr r" "i = 1 \<longrightarrow> r = Fin 0"
    by (auto simp: FEATURE_KEYS_def)
  from all[of 2] obtain e where e: "get_val lib (JObj raw) ''efficiency'' = Inr e" "i = 2 \<longrightarrow> e = Fin 0"
    by (auto simp: FEATURE_KEYS_def)
  from all[of 3] obtain a where a: "get_val lib (JObj raw) ''acceleration'' = Inr a" "i = 3 \<longrightarrow> a = Fin 0"
    by (auto simp: FEATURE_KEYS_def)
  from all[of 4] obtain f where f: "get_val lib (JObj raw) ''fast_charge'' = Inr f" "i = 4 \<longrightarrow> f = Fin 0"
    by (auto simp: FEATURE_KEYS_def)
  from all[of 5] obtain s where s: "get_val lib (JObj raw) ''seat_count'' = Inr s" "i = 5 \<longrightarrow> s = Fin 0"
    by (auto simp: FEATURE_KEYS_def)
  have sc: "scale_features lib (JObj raw) =
              Inr [fdiv p 1000, fdiv r 100, fdiv e 10, a, fdiv f 100, s]"
    by (simp add: scale_features_def p r e a f s)
  from i len have "i \<in> {0, 1, 2, 3, 4, 5}"
    by auto
  then have "[fdiv p 1000, fdiv r 100, fdiv e 10, a, fdiv f 100, s] ! i = Fin 0"
    using p(2) r(2) e(2) a(2) f(2) s(2) by (auto simp: rnd_values)
  with sc zero len show ?thesis by simp
qed

theorem missing_or_null_scales_to_zero_witness:
  "(\<exists>scaled. scale_features example_lib (JObj [(''price'', JNull), (''range'', JInt 500)]) =
              Inr scaled \<and> length scaled = 6 \<and> scaled ! 0 = Fin 0) \<and>
   (\<exists>scaled. scale_features example_lib (JObj [(''price'', JNull), (''range'', JInt 500)]) =
              Inr scaled \<and> length scaled = 6 \<and> scaled ! 2 = Fin 0)"
proof -
  let ?raw = "[(''price'', JNull), (''range'', JInt 500)]"
  have g: "get_val example_lib (JObj ?raw) ''price'' = Inr (Fin 0)"
          "get_val example_lib (JObj ?raw) ''range'' = Inr (Fin 500)"
          "get_val example_lib (JObj ?raw) ''efficiency'' = Inr (Fin 0)"
          "get_val example_lib (JObj ?raw) ''acceleration'' = Inr (Fin 0)"
          "get_val example_lib (JObj ?raw) ''fast_charge'' = Inr (Fin 0)"
          "get_val example_lib (JObj ?raw) ''seat_count'' = Inr (Fin 0)"
    by (simp_all add: get_val_JObj py_float_def to_double_def rnd_values)
  have l: "length FEATURE_KEYS = 6"
    by (simp add: FEATURE_KEYS_def)
  have h0: "(0::nat) < length FEATURE_KEYS" and h2: "(2::nat) < length FEATURE_KEYS"
    by (simp_all add: l)
  have a0: "map_of ?raw (FEATURE_KEYS ! 0) = None \<or> map_of ?raw (FEATURE_KEYS ! 0) = Some JNull"
    by (simp add: FEATURE_KEYS_def)
  have a2: "map_of ?raw (FEATURE_KEYS ! 2) = None \<or> map_of ?raw (FEATURE_KEYS ! 2) = Some JNull"
    by (simp add: FEATURE_KEYS_def)
  have o: "\<forall>j<length FEATURE_KEYS. j \<noteq> k \<longrightarrow>
             (\<exists>v. get_val example_lib (JObj ?raw) (FEATURE_KEYS ! j) = Inr v)" for k
    using g by (auto simp: FEATURE_KEYS_def less_Suc_eq numeral_eq_Suc)
  from missing_or_null_scales_to_zero[OF h0 a0 o] missing_or_null_scales_to_zero[OF h2 a2 o]
  show ?thesis
    by (simp add: l)
qed

text \<open>
  C9. With the default coefficient vector, the candidate \<open>{price: 45000, range: 500,
  efficiency: 150, acceleration: 6.1, fast_charge: 170, seat_count: 5}\<close> scales to
  \<open>[45, 5, 15, 6.1, 1.7, 5]\<close> and scores \<open>-23.03\<close>, each decimal standing for the double
  nearest to it, under either summation of the interpreter.
\<close>

theorem default_scenario_utility:
  "scale_features lib (JObj tesla) = Inr [Fin 45, Fin 5, Fin 15, rnd 6.1, rnd 1.7, Fin 5] \<and>
   calculate_utility_score lib (JObj tesla) DEFAULT_COEFFS = Inr (rnd (- 23.03)) \<and>
   (- 22.5 + 4.0 - 4.5 - 3.05 + 1.02 + 2.0 :: real) = - 23.03"
  using tesla_scaled[of lib] tesla_score[of lib] by simp

section \<open>Coefficient lookup: absent, malformed and incomplete entries\<close>

lemma format_value_JStr [simp]: "format_value lib (JStr s) = s"
  by (simp add: format_value_def)


text \<open>
  C3. For every user identifier, looking the coefficients up distinguishes two outcomes of
  the store at the key \<open>params:\<close> followed by the identifier: with no value there, the
  default coefficient vector is returned whole; with a value that is not valid JSON (given
  as text or as bytes), the lookup fails with the parse error instead of returning the
  default.
\<close>

theorem resolve_absent_or_malformed:
  "(redis (''params:'' @ user_id) = Inr (RVal JNull) \<longrightarrow>
      get_user_coefficients lib redis (JStr user_id) = Inr DEFAULT_COEFFS) \<and>
   (redis (''params:'' @ user_id) = Inr (RVal (JStr s)) \<and> json_loads lib s = None \<longrightarrow>
      get_user_coefficients lib redis (JStr user_id) = Inl JSONDecodeError) \<and>
   (redis (''params:'' @ user_id) = Inr (RBytes b) \<and> utf8_decode lib b = Some s \<and>
    json_loads lib s = None \<longrightarrow>
      get_user_coefficients lib redis (JStr user_id) = Inl JSONDecodeError)"
  by (simp add: get_user_coefficients_def)

theorem resolve_absent_or_malformed_witness:
  "get_user_coefficients example_lib example_store (JStr ''bob'') = Inr DEFAULT_COEFFS \<and>
   get_user_coefficients example_lib example_store (JStr ''alice'') = Inl JSONDecodeError"
  using resolve_absent_or_malformed[of example_store "''bob''" example_lib]
        resolve_absent_or_malformed[of example_store "''alice''" example_lib "''not json''"]
  by (simp add: example_store_def example_lib_def example_loads_def example_cars_json_def)

text \<open>
  C4. When the stored value is a JSON object (parsed from text, from bytes, or handed over
  already parsed), the lookup returns the whole default coefficient vector if the object has
  no \<open>coeffs\<close> field, whatever its other fields are, and returns the value of the \<open>coeffs\<close>
  field unchanged and unvalidated if it has one.
\<close>

theorem resolve_envelope_field:
  assumes "redis (''params:'' @ user_id) = Inr r"
      and "r = RVal (JStr s) \<and> json_loads lib s = Some (JObj kvs) \<or>
           r = RBytes b \<and> utf8_decode lib b = Some s \<and> json_loads lib s = Some (JObj kvs) \<or>
           r = RVal (JObj kvs)"
  shows "(map_of kvs ''coeffs'' = None \<longrightarrow>
            get_user_coefficients lib redis (JStr user_id) = Inr DEFAULT_COEFFS) \<and>
         (\<forall>c. map_of kvs ''coeffs'' = Some c \<longrightarrow>
            get_user_coefficients lib redis (JStr user_id) = Inr c)"
  using assms by (auto simp: get_user_coefficients_def)

theorem resolve_envelope_field_witness:
  "get_user_coefficients example_lib example_store (JStr ''carol'') = Inr DEFAULT_COEFFS \<and>
   get_user_coefficients example_lib example_store (JStr ''dave'') = Inr DEFAULT_COEFFS \<and>
   get_user_coefficients example_lib example_store (JStr ''erin'') =
     Inr (JObj [(''price'', JInt 1)]) \<and>
   get_user_coefficients example_lib example_store (JStr ''frank'') = Inr DEFAULT_COEFFS"
proof -
  have l: "json_loads example_lib ''{}'' = Some (JObj [])"
          "utf8_decode example_lib ''{}'' = Some ''{}''"
    by (simp_all add: example_lib_def example_loads_def example_decode_def)
  have c: "get_user_coefficients example_lib example_store (JStr ''carol'') = Inr DEFAULT_COEFFS"
    using resolve_envelope_field
      [where redis = example_store and user_id = "''carol''" and r = "RVal (JStr ''{}'')"
         and s = "''{}''" and lib = example_lib and kvs = "[]" and b = "[]"] l
    by (simp add: example_store_def)
  have d: "get_user_coefficients example_lib example_store (JStr ''dave'') = Inr DEFAULT_COEFFS"
    using resolve_envelope_field
      [where redis = example_store and user_id = "''dave''" and r = "RBytes ''{}''"
         and s = "''{}''" and lib = example_lib and kvs = "[]" and b = "''{}''"] l
    by (simp add: example_store_def)
  have e: "get_user_coefficients example_lib example_store (JStr ''erin'') =
             Inr (JObj [(''price'', JInt 1)])"
    using resolve_envelope_field
      [where redis = example_store and user_id = "''erin''"
         and r = "RVal (JObj [(''coeffs'', JObj [(''price'', JInt 1)]), (''trained'', JBool True)])"
         and s = "[]" and lib = example_lib and b = "[]"
         and kvs = "[(''coeffs'', JObj [(''price'', JInt 1)]), (''trained'', JBool True)]"]
    by (simp add: example_store_def)
  have f: "get_user_coefficients example_lib example_store (JStr ''frank'') = Inr DEFAULT_COEFFS"
    using resolve_envelope_field
      [where redis = example_store and user_id = "''frank''"
         and r = "RVal (JObj [(''price'', JNum (Fin 2.5)), (''trained'', JBool True)])"
         and s = "[]" and lib = example_lib and b = "[]"
         and kvs = "[(''price'', JNum (Fin 2.5)), (''trained'', JBool True)]"]
    by (simp add: example_store_def)
  from c d e f show ?thesis by simp
qed

lemma first_missing_key:
  assumes "find (\<lambda>k. map_of cs k = None) ks = Some k"
  shows "map_err (subscript (JObj cs)) ks = Inl (KeyError k)"
  using assms
  by (induction ks) (auto simp: subscript_def split: if_splits option.splits)

lemma calculate_utility_score_missing:
  assumes "scale_features lib car = Inr scaled"
      and "find (\<lambda>k. map_of cs k = None) FEATURE_KEYS = Some k"
  shows "calculate_utility_score lib car (JObj cs) = Inl (KeyError k)"
  using assms by (simp add: calculate_utility_score_def first_missing_key)

section \<open>Missing coefficients\<close>

text \<open>
  C8. For a candidate that scales and a coefficient dictionary lacking at least one of the
  six keys, scoring fails with the KeyError of the first absent key in the fixed key order;
  the failure ends the whole call of either adapter with that error and no default is
  substituted.
\<close>

theorem missing_coefficient_is_fatal:
  assumes "scale_features lib car = Inr scaled"
      and "find (\<lambda>k. map_of cs k = None) FEATURE_KEYS = Some k"
  shows "calculate_utility_score lib car (JObj cs) = Inl (KeyError k) \<and>
         (get_user_coefficients lib redis user_id = Inr (JObj cs) \<longrightarrow>
            handle_call_tool lib redis ''find_best_car''
              (JObj [(''user_id'', user_id), (''cars'', JArr (car # cars))]) =
            Inl (KeyError k)) \<and>
         (get_user_coefficients lib redis (JStr uid) = Inr (JObj cs) \<and>
          json_loads lib cars_json = Some (JArr (car # cars)) \<longrightarrow>
            find_best_from_list lib redis uid cars_json = Inl (KeyError k))"
  using calculate_utility_score_missing[OF assms]
  by (simp add: handle_call_tool_def find_best_from_list_def subscript_def py_iter_def)

theorem missing_coefficient_is_fatal_witness:
  "calculate_utility_score example_lib (JObj tesla) (JObj [(''price'', JInt 1)]) =
     Inl (KeyError ''range'') \<and>
   handle_call_tool example_lib example_store ''find_best_car''
     (JObj [(''user_id'', JStr ''erin''), (''cars'', JArr [JObj tesla])]) =
     Inl (KeyError ''range'')"
proof -
  have s: "scale_features example_lib (JObj tesla) =
             Inr [Fin 45, Fin 5, Fin 15, rnd 6.1, rnd 1.7, Fin 5]"
    by (rule tesla_scaled)
  have f: "find (\<lambda>k. map_of [(''price'', JInt 1)] k = None) FEATURE_KEYS = Some ''range''"
    by (simp add: FEATURE_KEYS_def)
  have g: "get_user_coefficients example_lib example_store (JStr ''erin'') =
             Inr (JObj [(''price'', JInt 1)])"
    by (simp add: get_user_coefficients_def example_store_def)
  from missing_coefficient_is_fatal[OF s f, of example_store "JStr ''erin''" "[]"] g
  show ?thesis by simp
qed


section \<open>The order of floats\<close>

lemma fgt_rank: "a \<noteq> NaN \<Longrightarrow> b \<noteq> NaN \<Longrightarrow> fgt a b \<longleftrightarrow> rank b < rank a"
  by (cases a; cases b) auto

lemma fge_rank: "a \<noteq> NaN \<Longrightarrow> b \<noteq> NaN \<Longrightarrow> fge a b \<longleftrightarrow> rank b \<le> rank a"
  by (cases a; cases b) (auto simp: fge_def)

lemma rank_eq_iff [simp]: "rank a = rank b \<longleftrightarrow> a = b"
  by (cases a; cases b) auto

lemma fgt_irrefl [simp]: "\<not> fgt a a"
  by (cases a) auto

lemma not_above_NInf: "a \<noteq> NaN \<Longrightarrow> \<not> fgt a NInf \<Longrightarrow> a = NInf"
  by (cases a) auto

lemma py_round_not_NaN: "d \<noteq> NaN \<Longrightarrow> py_round n d \<noteq> NaN"
  by (cases d) auto

section \<open>The ranking loop\<close>

lemma map_err_length: "map_err f xs = Inr ys \<Longrightarrow> length ys = length xs"
  by (induction xs arbitrary: ys) (auto split: sum.splits)

lemma map_err_nth:
  "map_err f xs = Inr ys \<Longrightarrow> i < length xs \<Longrightarrow> f (xs ! i) = Inr (ys ! i)"
proof (induction xs arbitrary: ys i)
  case Nil
  then show ?case by simp
next
  case (Cons x xs)
  then show ?case
    by (cases i) (auto split: sum.splits)
qed

lemma map_err_map_Inr:
  assumes "\<forall>x\<in>set xs. f (h x) = Inr (g x)"
  shows "map_err f (map h xs) = Inr (map g xs)"
  using assms by (induction xs) auto

lemma rank_loop_scored:
  assumes "map_err (\<lambda>raw. calculate_utility_score lib (JObj raw) coeffs) raws = Inr us"
  shows "rank_loop lib shown coeffs (map JObj raws) st =
           Inr (fold record_result (zip us (scored_records shown raws us)) st)"
  using assms
proof (induction raws arbitrary: us st)
  case Nil
  then show ?case by (simp add: scored_records_def)
next
  case (Cons raw raws)
  from Cons.prems obtain u us' where
    u: "calculate_utility_score lib (JObj raw) coeffs = Inr u"
    and us': "map_err (\<lambda>raw. calculate_utility_score lib (JObj raw) coeffs) raws = Inr us'"
    and us: "us = u # us'"
    by (auto split: sum.splits)
  show ?case
    using Cons.IH[OF us'] u
    by (simp add: us scored_records_def scored_def with_utility_def record_result_def)
qed

lemma record_result_sel:
  "best_car (record_result ur st) =
     (if fgt (fst ur) (best_utility st) then snd ur else best_car st)"
  "best_utility (record_result ur st) =
     (if fgt (fst ur) (best_utility st) then fst ur else best_utility st)"
  "all_results (record_result ur st) = all_results st @ [snd ur]"
  by (simp_all add: record_result_def)

lemma fold_record_all_results:
  "all_results (fold record_result urs st) = all_results st @ map snd urs"
  by (induction urs arbitrary: st) (simp_all add: record_result_sel)

text \<open>
  What the loop holds after any number of candidates without a NaN utility: no utility
  seen exceeds the running best, and the best is either still the initial one or that of the
  first candidate whose utility no other exceeds.
\<close>

lemma fold_record_best:
  assumes "\<forall>ur\<in>set urs. fst ur \<noteq> NaN"
  shows "best_utility (fold record_result urs init_state) \<noteq> NaN \<and>
         (\<forall>j<length urs. \<not> fgt (fst (urs ! j)) (best_utility (fold record_result urs init_state))) \<and>
         (best_utility (fold record_result urs init_state) = NInf \<and>
          best_car (fold record_result urs init_state) = JNull \<or>
          (\<exists>i<length urs.
             best_car (fold record_result urs init_state) = snd (urs ! i) \<and>
             best_utility (fold record_result urs init_state) = fst (urs ! i) \<and>
             (\<forall>j<i. fgt (fst (urs ! i)) (fst (urs ! j)))))"
  using assms
proof (induction urs rule: rev_induct)
  case Nil
  then show ?case by (simp add: init_state_def)
next
  case (snoc ur urs)
  let ?st = "fold record_result urs init_state"
  let ?b = "best_utility ?st"
  let ?u = "fst ur"
  from snoc.prems have nn: "\<forall>ur\<in>set urs. fst ur \<noteq> NaN" and u: "?u \<noteq> NaN"
    by simp_all
  from snoc.IH[OF nn] have b: "?b \<noteq> NaN"
    and mx: "\<forall>j<length urs. \<not> fgt (fst (urs ! j)) ?b"
    and alt: "?b = NInf \<and> best_car ?st = JNull \<or>
              (\<exists>i<length urs. best_car ?st = snd (urs ! i) \<and> ?b = fst (urs ! i) \<and>
                 (\<forall>j<i. fgt (fst (urs ! i)) (fst (urs ! j))))"
    by blast+
  have uj: "fst (urs ! j) \<noteq> NaN" if "j < length urs" for j
    using nn that by simp
  have below: "rank (fst (urs ! j)) \<le> rank ?b" if "j < length urs" for j
    using mx that fgt_rank[OF uj[OF that] b] by (simp add: not_less)
  show ?case
  proof (cases "fgt ?u ?b")
    case True
    then have ub: "rank ?b < rank ?u"
      using fgt_rank[OF u b] by simp
    have lt: "fgt ?u (fst (urs ! j))" if "j < length urs" for j
      using below[OF that] ub fgt_rank[OF u uj[OF that]] by simp
    have nogt: "\<not> fgt (fst (urs ! j)) ?u" if "j < length urs" for j
      using below[OF that] ub fgt_rank[OF uj[OF that] u] by simp
    have "\<forall>j<length (urs @ [ur]). \<not> fgt (fst ((urs @ [ur]) ! j)) ?u"
      using nogt by (auto simp: nth_append less_Suc_eq)
    moreover have "\<forall>j<length urs. fgt ?u (fst ((urs @ [ur]) ! j))"
      using lt by (auto simp: nth_append)
    ultimately show ?thesis
      using True u
      by (simp add: record_result_sel)
         (rule disjI2, rule exI[of _ "length urs"], simp)
  next
    case False
    have "\<forall>j<length (urs @ [ur]). \<not> fgt (fst ((urs @ [ur]) ! j)) ?b"
      using mx False by (auto simp: nth_append less_Suc_eq)
    moreover have "?b = NInf \<and> best_car ?st = JNull \<or>
              (\<exists>i<length (urs @ [ur]). best_car ?st = snd ((urs @ [ur]) ! i) \<and>
                 ?b = fst ((urs @ [ur]) ! i) \<and>
                 (\<forall>j<i. fgt (fst ((urs @ [ur]) ! i)) (fst ((urs @ [ur]) ! j))))"
      using alt
    proof
      assume "?b = NInf \<and> best_car ?st = JNull"
      then show ?thesis by simp
    next
      assume "\<exists>i<length urs. best_car ?st = snd (urs ! i) \<and> ?b = fst (urs ! i) \<and>
                 (\<forall>j<i. fgt (fst (urs ! i)) (fst (urs ! j)))"
      then obtain i where "i < length urs" "best_car ?st = snd (urs ! i)" "?b = fst (urs ! i)"
        "\<forall>j<i. fgt (fst (urs ! i)) (fst (urs ! j))"
        by blast
      then show ?thesis
        by (intro disjI2 exI[of _ i]) (auto simp: nth_append)
    qed
    ultimately show ?thesis
      using False b by (simp add: record_result_sel)
  qed
qed

lemma sort_key_of_scored [simp]: "sort_key_of (scored shown raw u) = Inr (shown u)"
  by (simp add: sort_key_of_def subscript_def scored_def update_conv')

lemma scored_records_keys:
  "map_err sort_key_of (scored_records shown raws us) =
     Inr (map (\<lambda>p. shown (snd p)) (zip raws us))"
  unfolding scored_records_def by (rule map_err_map_Inr) simp

lemma zip_scored_nth:
  assumes "length us = length raws" and "i < length raws"
  shows "zip us (scored_records shown raws us) ! i = (us ! i, scored shown (raws ! i) (us ! i))"
  using assms by (simp add: scored_records_def)

lemma map_snd_zip_scored:
  assumes "length us = length raws"
  shows "map snd (zip us (scored_records shown raws us)) = scored_records shown raws us"
  using assms by (simp add: scored_records_def)

lemma loop_all:
  assumes us: "map_err (\<lambda>raw. calculate_utility_score lib (JObj raw) coeffs) raws = Inr us"
  shows "\<exists>st. rank_loop lib shown coeffs (map JObj raws) init_state = Inr st \<and>
           all_results st = scored_records shown raws us \<and>
           (raws = [] \<longrightarrow> best_car st = JNull)"
proof -
  have len: "length us = length raws"
    using map_err_length[OF us] .
  let ?st = "fold record_result (zip us (scored_records shown raws us)) init_state"
  have "all_results ?st = scored_records shown raws us"
    by (simp add: fold_record_all_results init_state_def map_snd_zip_scored[OF len])
  moreover have "raws = [] \<longrightarrow> best_car ?st = JNull"
    using len by (auto simp: init_state_def scored_records_def)
  ultimately show ?thesis
    using rank_loop_scored[OF us, of shown init_state] by blast
qed

lemma loop_best:
  assumes us: "map_err (\<lambda>raw. calculate_utility_score lib (JObj raw) coeffs) raws = Inr us"
      and nonan: "NaN \<notin> set us"
      and above: "\<exists>u\<in>set us. u \<noteq> NInf"
  shows "\<exists>st i. rank_loop lib shown coeffs (map JObj raws) init_state = Inr st \<and>
           i < length raws \<and>
           best_car st = scored shown (raws ! i) (us ! i) \<and>
           all_results st = scored_records shown raws us \<and>
           (\<forall>j<length raws. \<not> fgt (us ! j) (us ! i)) \<and> (\<forall>j<i. fgt (us ! i) (us ! j))"
proof -
  have len: "length us = length raws"
    using map_err_length[OF us] .
  let ?urs = "zip us (scored_records shown raws us)"
  let ?st = "fold record_result ?urs init_state"
  have lsr: "length (scored_records shown raws us) = length raws"
    using len by (simp add: scored_records_def)
  have lurs: "length ?urs = length raws"
    using len lsr by simp
  have nth: "?urs ! j = (us ! j, scored shown (raws ! j) (us ! j))" if "j < length raws" for j
    using zip_scored_nth[OF len that] .
  have "\<forall>ur\<in>set ?urs. fst ur \<noteq> NaN"
    using nonan by (auto dest: set_zip_leftD)
  from fold_record_best[OF this] have b: "best_utility ?st \<noteq> NaN"
    and mx: "\<forall>j<length ?urs. \<not> fgt (fst (?urs ! j)) (best_utility ?st)"
    and alt: "best_utility ?st = NInf \<and> best_car ?st = JNull \<or>
              (\<exists>i<length ?urs. best_car ?st = snd (?urs ! i) \<and>
                 best_utility ?st = fst (?urs ! i) \<and>
                 (\<forall>j<i. fgt (fst (?urs ! i)) (fst (?urs ! j))))"
    by blast+
  from above obtain k where k: "k < length us" "us ! k \<noteq> NInf"
    by (auto simp: in_set_conv_nth)
  have "best_utility ?st \<noteq> NInf"
  proof
    assume inf: "best_utility ?st = NInf"
    from k len have kr: "k < length raws" by simp
    with mx lurs have "\<not> fgt (fst (?urs ! k)) (best_utility ?st)" by metis
    then have "\<not> fgt (us ! k) NInf"
      unfolding nth[OF kr] inf by simp
    moreover from nonan k(1) have "us ! k \<noteq> NaN" by (metis nth_mem)
    ultimately show False
      using k(2) not_above_NInf by blast
  qed
  with alt obtain i where i: "i < length ?urs"
    and bc: "best_car ?st = snd (?urs ! i)"
    and bu: "best_utility ?st = fst (?urs ! i)"
    and fs: "\<forall>j<i. fgt (fst (?urs ! i)) (fst (?urs ! j))"
    by blast
  have i': "i < length raws"
    using i lurs by metis
  have "best_car ?st = scored shown (raws ! i) (us ! i)"
    using bc nth[OF i'] by simp
  moreover have "all_results ?st = scored_records shown raws us"
    by (simp add: fold_record_all_results init_state_def map_snd_zip_scored[OF len])
  moreover have "\<forall>j<length raws. \<not> fgt (us ! j) (us ! i)"
  proof (intro allI impI)
    fix j assume j: "j < length raws"
    with mx lurs have "\<not> fgt (fst (?urs ! j)) (best_utility ?st)" by metis
    then show "\<not> fgt (us ! j) (us ! i)"
      unfolding bu nth[OF j] nth[OF i'] by simp
  qed
  moreover have "\<forall>j<i. fgt (us ! i) (us ! j)"
  proof (intro allI impI)
    fix j assume j: "j < i"
    with i' have jr: "j < length raws" by simp
    from fs j have "fgt (fst (?urs ! i)) (fst (?urs ! j))" by simp
    then show "fgt (us ! i) (us ! j)"
      unfolding nth[OF jr] nth[OF i'] by simp
  qed
  ultimately show ?thesis
    using rank_loop_scored[OF us, of shown init_state] i' by blast
qed

lemma first_max_unique:
  fixes i i' n :: nat
  assumes "i < n" "i' < n"
      and "\<forall>j<n. \<not> fgt (f j) (f i)" "\<forall>j<i. fgt (f i) (f j)"
      and "\<forall>j<n. \<not> fgt (f j) (f i')" "\<forall>j<i'. fgt (f i') (f j)"
  shows "i = i'"
proof (rule ccontr)
  assume "i \<noteq> i'"
  then consider "i < i'" | "i' < i" by linarith
  then show False
  proof cases
    case 1
    with assms(6) have "fgt (f i') (f i)" by simp
    with assms(2,3) show False by simp
  next
    case 2
    with assms(4) have "fgt (f i) (f i')" by simp
    with assms(1,5) show False by simp
  qed
qed

section \<open>The sort\<close>

lemma sort_desc_plain:
  assumes "\<forall>p\<in>set ps. fst p \<noteq> NaN"
  shows "sort_desc lib ps = rev (sort_key (\<lambda>kx. rank (fst kx)) (rev ps))"
  using assms by (auto simp: sort_desc_def list_ex_iff)

lemma sort_desc_mset:
  assumes "\<forall>p\<in>set ps. fst p \<noteq> NaN"
  shows "mset (sort_desc lib ps) = mset ps"
  by (simp add: sort_desc_plain[OF assms])

lemma sort_desc_set:
  assumes "\<forall>p\<in>set ps. fst p \<noteq> NaN"
  shows "set (sort_desc lib ps) = set ps"
  by (simp add: sort_desc_plain[OF assms])

lemma sort_desc_sorted:
  assumes "\<forall>p\<in>set ps. fst p \<noteq> NaN"
  shows "sorted_wrt fge (map fst (sort_desc lib ps))"
proof -
  let ?l = "sort_key (\<lambda>kx. rank (fst kx)) (rev ps)"
  have nn: "\<forall>p\<in>set ?l. fst p \<noteq> NaN"
    using assms by simp
  have "sorted (map (\<lambda>kx. rank (fst kx)) ?l)"
    by (rule sorted_sort_key)
  then have "sorted_wrt (\<lambda>a b. rank (fst a) \<le> rank (fst b)) ?l"
    by (simp add: sorted_wrt_map)
  then have "sorted_wrt (\<lambda>a b. fge (fst b) (fst a)) ?l"
    using nn by (rule_tac sorted_wrt_mono_rel[rotated]) (simp_all add: fge_rank)
  then have "sorted_wrt (\<lambda>a b. fge (fst a) (fst b)) (rev ?l)"
    by (simp add: sorted_wrt_rev)
  then show ?thesis
    by (simp add: sort_desc_plain[OF assms] sorted_wrt_map)
qed

lemma sort_desc_stable:
  assumes "\<forall>p\<in>set ps. fst p \<noteq> NaN"
  shows "filter (\<lambda>p. fst p = k) (sort_desc lib ps) = filter (\<lambda>p. fst p = k) ps"
proof -
  have "filter (\<lambda>p. rank (fst p) = rank k) (sort_key (\<lambda>kx. rank (fst kx)) (rev ps)) =
          filter (\<lambda>p. rank (fst p) = rank k) (rev ps)"
    by (rule sort_key_stable)
  then show ?thesis
    by (simp add: sort_desc_plain[OF assms] rev_filter [symmetric])
qed

lemma keyed_pairs:
  assumes "map_err sort_key_of xs = Inr ks" and "p \<in> set (zip ks xs)"
  shows "sort_key_of (snd p) = Inr (fst p)"
proof -
  from assms(2) obtain i where "i < length xs" "p = (ks ! i, xs ! i)"
    by (auto simp: in_set_zip)
  with map_err_nth[OF assms(1)] show ?thesis by simp
qed

lemma filter_keyed:
  assumes "\<forall>p\<in>set ps. sort_key_of (snd p) = Inr (fst p)"
  shows "filter (\<lambda>r. sort_key_of r = Inr k) (map snd ps) = map snd (filter (\<lambda>p. fst p = k) ps)"
  using assms by (induction ps) auto

lemma sort_by_utility_result:
  "map_err sort_key_of xs = Inr ks \<Longrightarrow>
     sort_by_utility lib xs = Inr (map snd (sort_desc lib (zip ks xs)))"
  by (simp add: sort_by_utility_def)

lemma sort_by_utility_props:
  assumes ks: "map_err sort_key_of xs = Inr ks" and nonan: "NaN \<notin> set ks"
  shows "\<exists>ranked. sort_by_utility lib xs = Inr ranked \<and> mset ranked = mset xs \<and>
           descending ranked \<and>
           (\<forall>k. filter (\<lambda>r. sort_key_of r = Inr k) ranked =
                filter (\<lambda>r. sort_key_of r = Inr k) xs)"
proof -
  let ?ps = "zip ks xs"
  let ?ranked = "map snd (sort_desc lib ?ps)"
  have len: "length ks = length xs"
    using map_err_length[OF ks] .
  have xs: "map snd ?ps = xs"
    using len by simp
  have nn: "\<forall>p\<in>set ?ps. fst p \<noteq> NaN"
    using nonan by (auto dest: set_zip_leftD)
  have keyed: "\<forall>p\<in>set ?ps. sort_key_of (snd p) = Inr (fst p)"
    using keyed_pairs[OF ks] by blast
  then have keyed': "\<forall>p\<in>set (sort_desc lib ?ps). sort_key_of (snd p) = Inr (fst p)"
    by (simp add: sort_desc_set[OF nn])
  have res: "sort_by_utility lib xs = Inr ?ranked"
    using ks by (rule sort_by_utility_result)
  have "mset ?ranked = image_mset snd (mset ?ps)"
    by (simp add: sort_desc_mset[OF nn])
  also have "\<dots> = mset (map snd ?ps)"
    by simp
  finally have perm: "mset ?ranked = mset xs"
    using xs by simp
  have "map_err sort_key_of ?ranked = Inr (map fst (sort_desc lib ?ps))"
    using keyed' by (rule map_err_map_Inr)
  then have desc: "descending ?ranked"
    by (simp add: descending_def sort_desc_sorted[OF nn])
  have stable: "filter (\<lambda>r. sort_key_of r = Inr k) ?ranked = filter (\<lambda>r. sort_key_of r = Inr k) xs"
    for k
  proof -
    have "filter (\<lambda>r. sort_key_of r = Inr k) ?ranked =
            map snd (filter (\<lambda>p. fst p = k) (sort_desc lib ?ps))"
      using keyed' by (rule filter_keyed)
    also have "\<dots> = map snd (filter (\<lambda>p. fst p = k) ?ps)"
      by (simp add: sort_desc_stable[OF nn])
    also have "\<dots> = filter (\<lambda>r. sort_key_of r = Inr k) (map snd ?ps)"
      using keyed by (rule filter_keyed [symmetric])
    finally show ?thesis
      using xs by simp
  qed
  from res perm desc stable show ?thesis by blast
qed

lemma scored_sort_total:
  "\<exists>ranked. sort_by_utility lib (scored_records shown raws us) = Inr ranked"
  using sort_by_utility_result[OF scored_records_keys] by blast

lemma scored_sort_props:
  assumes "NaN \<notin> set us" and "length us = length raws"
  shows "\<exists>ranked. sort_by_utility lib (scored_records (py_round 4) raws us) = Inr ranked \<and>
     mset ranked = mset (scored_records (py_round 4) raws us) \<and> descending ranked \<and>
     (\<forall>k. filter (\<lambda>r. sort_key_of r = Inr k) ranked =
          filter (\<lambda>r. sort_key_of r = Inr k) (scored_records (py_round 4) raws us))"
proof (rule sort_by_utility_props[OF scored_records_keys])
  show "NaN \<notin> set (map (\<lambda>p. py_round 4 (snd p)) (zip raws us))"
    using assms(1) by (auto dest!: set_zip_rightD) (metis py_round_not_NaN)
qed

section \<open>The adapters' results\<close>

lemma find_best_car_result:
  assumes "get_user_coefficients lib redis user_id = Inr coeffs"
      and "rank_loop lib (\<lambda>u. u) coeffs cars init_state = Inr st"
  shows "handle_call_tool lib redis ''find_best_car''
           (JObj [(''user_id'', user_id), (''cars'', JArr cars)]) =
         Inr (JObj [(''user_id'', user_id),
                    (''best_car'', best_car st),
                    (''all_cars_with_utilities'', JArr (all_results st)),
                    (''coefficients_used'', coeffs)])"
  using assms by (simp add: handle_call_tool_def subscript_def py_iter_def)

lemma find_best_from_list_result:
  assumes "json_loads lib cars_json = Some (JArr cars)"
      and "get_user_coefficients lib redis (JStr user_id) = Inr coeffs"
      and "rank_loop lib (py_round 4) coeffs cars init_state = Inr st"
      and "sort_by_utility lib (all_results st) = Inr ranked"
      and "round_coeffs coeffs = Inr rounded"
  shows "find_best_from_list lib redis user_id cars_json =
         Inr (JObj [(''user_id'', JStr user_id),
                    (''best_car'', best_car st),
                    (''all_cars_ranked'', JArr ranked),
                    (''coefficients_used'', rounded),
                    (''note'', JStr (if equals_default coeffs
                                     then ''Using default coefficients''
                                     else ''Using saved user preferences''))])"
  using assms by (simp add: find_best_from_list_def py_iter_def)


section \<open>The examples' scores\<close>

lemma vw_score:
  "calculate_utility_score lib (JObj vw_id4) DEFAULT_COEFFS = Inr (rnd (- 23.54))"
proof (cases "compensated_sum lib")
  case True
  then show ?thesis
    by (simp add: calculate_utility_score_def scale_features_def get_val_JObj py_float_def
          to_double_def vw_id4_def FEATURE_KEYS_def DEFAULT_COEFFS_def subscript_def
          py_mul_def py_sum_def fsub_def fge_def Let_def rnd_values)
next
  case False
  then show ?thesis
    by (simp add: calculate_utility_score_def scale_features_def get_val_JObj py_float_def
          to_double_def vw_id4_def FEATURE_KEYS_def DEFAULT_COEFFS_def subscript_def
          py_mul_def py_sum_def rnd_values)
qed

lemma features_only:
  assumes "\<forall>k\<in>set FEATURE_KEYS. map_of raw k = map_of raw' k"
  shows "calculate_utility_score lib (JObj raw) coeffs =
         calculate_utility_score lib (JObj raw') coeffs"
  using assms
  by (simp add: calculate_utility_score_def scale_features_def get_val_JObj FEATURE_KEYS_def)

lemma tesla_model3_score:
  "calculate_utility_score lib (JObj tesla_model3) DEFAULT_COEFFS = Inr (rnd (- 23.03))"
  using features_only[of tesla_model3 tesla lib DEFAULT_COEFFS] tesla_score[of lib]
  by (simp add: FEATURE_KEYS_def tesla_model3_def tesla_def)

lemma tesla_used_score:
  "calculate_utility_score lib (JObj tesla_used) DEFAULT_COEFFS = Inr (rnd (- 23.03))"
  using features_only[of tesla_used tesla lib DEFAULT_COEFFS] tesla_score[of lib]
  by (simp add: FEATURE_KEYS_def tesla_used_def tesla_def)


lemma example_scores:
  "map_err (\<lambda>raw. calculate_utility_score example_lib (JObj raw) DEFAULT_COEFFS) example_cars =
     Inr example_us"
  by (simp add: example_cars_def example_us_def vw_score tesla_model3_score tesla_used_score)

lemma example_bob:
  "get_user_coefficients example_lib example_store (JStr ''bob'') = Inr DEFAULT_COEFFS"
  by (simp add: get_user_coefficients_def example_store_def)

lemma round_default: "round_coeffs DEFAULT_COEFFS = Inr DEFAULT_COEFFS"
  by (simp add: round_coeffs_def DEFAULT_COEFFS_def round_value_def rnd_values half_even_def)

lemma default_is_default: "equals_default DEFAULT_COEFFS"
  by (simp add: equals_default_def DEFAULT_COEFFS_def num_eq_def)

lemma example_parse:
  "json_loads example_lib example_cars_json = Some (JArr (map JObj example_cars))"
  by (simp add: example_lib_def example_loads_def example_cars_json_def)

lemma example_us_values:
  "example_us = [Fin (- (3312960475884421 / 140737488355328)),
                 Fin (- (810296089205801 / 35184372088832)),
                 Fin (- (810296089205801 / 35184372088832))]"
  by (simp add: example_us_def rnd_values)

lemma round_23_03: "py_round 4 (rnd (- 23.03)) = rnd (- 23.03)"
  by (simp add: rnd_values half_even_def)

lemma gail_coeffs:
  "get_user_coefficients example_lib example_store (JStr ''gail'') =
     Inr (JObj [(''price'', JInt 0), (''range'', JInt 0), (''efficiency'', JInt 0),
                (''acceleration'', JInt 0), (''fast_charge'', JInt 0),
                (''seat_count'', JInt (- 2))])"
  by (simp add: get_user_coefficients_def example_store_def)

lemma huge_seats_score:
  "calculate_utility_score example_lib (JObj huge_seats)
     (JObj [(''price'', JInt 0), (''range'', JInt 0), (''efficiency'', JInt 0),
            (''acceleration'', JInt 0), (''fast_charge'', JInt 0),
            (''seat_count'', JInt (- 2))]) = Inr NInf"
  by (simp add: calculate_utility_score_def scale_features_def get_val_JObj py_float_def
        to_double_def huge_seats_def FEATURE_KEYS_def subscript_def py_mul_def py_sum_def
        fsub_def fge_def Let_def example_lib_def rnd_values)

section \<open>Ranking: the best candidate\<close>

text \<open>
  C5 (amended). For every candidate list whose candidates all score, with no utility NaN and
  at least one utility above negative infinity (so the list is not empty), the candidate
  recorded as best by \<^verbatim>\<open>find_best_car\<close>, and by \<^verbatim>\<open>find_best_from_list\<close> when the coefficients
  can be rounded for display, is the scored record of the first candidate in input order
  whose utility is the maximum: no candidate's utility is greater than that of index \<open>i\<close>, and
  the utility of index \<open>i\<close> is strictly greater than every earlier one. The running best
  starts at negative infinity, which every other number exceeds.
\<close>

theorem best_is_first_maximum:
  assumes coeffs: "get_user_coefficients lib redis (JStr user_id) = Inr coeffs"
      and us: "map_err (\<lambda>raw. calculate_utility_score lib (JObj raw) coeffs) raws = Inr us"
      and nonan: "NaN \<notin> set us"
      and above: "\<exists>u\<in>set us. u \<noteq> NInf"
  shows "best_utility init_state = NInf \<and>
         (u \<noteq> NaN \<and> u \<noteq> NInf \<longrightarrow> fgt u (best_utility init_state)) \<and>
         (\<exists>i<length raws.
            (\<forall>j<length raws. \<not> fgt (us ! j) (us ! i)) \<and> (\<forall>j<i. fgt (us ! i) (us ! j)) \<and>
            (\<exists>res. handle_call_tool lib redis ''find_best_car''
                     (JObj [(''user_id'', JStr user_id), (''cars'', JArr (map JObj raws))]) =
                   Inr res \<and>
                   subscript res ''best_car'' = Inr (scored (\<lambda>u. u) (raws ! i) (us ! i))) \<and>
            (\<forall>cars_json rounded.
               json_loads lib cars_json = Some (JArr (map JObj raws)) \<and>
               round_coeffs coeffs = Inr rounded \<longrightarrow>
               (\<exists>res. find_best_from_list lib redis user_id cars_json = Inr res \<and>
                      subscript res ''best_car'' =
                        Inr (scored (py_round 4) (raws ! i) (us ! i)))))"
proof -
  from loop_best[OF us nonan above, of "\<lambda>u. u"] obtain st i where
    st: "rank_loop lib (\<lambda>u. u) coeffs (map JObj raws) init_state = Inr st"
    and i: "i < length raws"
    and bc: "best_car st = scored (\<lambda>u. u) (raws ! i) (us ! i)"
    and mx: "\<forall>j<length raws. \<not> fgt (us ! j) (us ! i)" and fs: "\<forall>j<i. fgt (us ! i) (us ! j)"
    by blast
  from loop_best[OF us nonan above, of "py_round 4"] obtain st' i' where
    st': "rank_loop lib (py_round 4) coeffs (map JObj raws) init_state = Inr st'"
    and i': "i' < length raws"
    and bc': "best_car st' = scored (py_round 4) (raws ! i') (us ! i')"
    and ar': "all_results st' = scored_records (py_round 4) raws us"
    and mx': "\<forall>j<length raws. \<not> fgt (us ! j) (us ! i')" and fs': "\<forall>j<i'. fgt (us ! i') (us ! j)"
    by blast
  have same: "i' = i"
    using first_max_unique[of i' "length raws" i "\<lambda>j. us ! j", OF i' i mx' fs' mx fs] .
  from scored_sort_total[of lib "py_round 4" raws us] ar' obtain ranked where
    ranked: "sort_by_utility lib (all_results st') = Inr ranked"
    by auto
  have server: "\<exists>res. handle_call_tool lib redis ''find_best_car''
                       (JObj [(''user_id'', JStr user_id), (''cars'', JArr (map JObj raws))]) =
                     Inr res \<and>
                     subscript res ''best_car'' = Inr (scored (\<lambda>u. u) (raws ! i) (us ! i))"
    using find_best_car_result[OF coeffs st] bc by (simp add: subscript_def)
  have app: "\<exists>res. find_best_from_list lib redis user_id cars_json = Inr res \<and>
                   subscript res ''best_car'' = Inr (scored (py_round 4) (raws ! i) (us ! i))"
    if "json_loads lib cars_json = Some (JArr (map JObj raws))"
       "round_coeffs coeffs = Inr rounded" for cars_json rounded
    using find_best_from_list_result[OF that(1) coeffs st' ranked that(2)] bc' same
    by (simp add: subscript_def)
  have "best_utility init_state = NInf"
    by (simp add: init_state_def)
  moreover have "u \<noteq> NaN \<and> u \<noteq> NInf \<longrightarrow> fgt u (best_utility init_state)"
    by (cases u) (simp_all add: init_state_def)
  ultimately show ?thesis
    using i mx fs server app by blast
qed

theorem best_is_first_maximum_witness:
  "(\<exists>res. handle_call_tool example_lib example_store ''find_best_car''
            (JObj [(''user_id'', JStr ''bob''), (''cars'', JArr (map JObj example_cars))]) =
          Inr res \<and>
          subscript res ''best_car'' = Inr (scored (\<lambda>u. u) tesla_model3 (rnd (- 23.03)))) \<and>
   (\<exists>res. find_best_from_list example_lib example_store ''bob'' example_cars_json = Inr res \<and>
          subscript res ''best_car'' = Inr (scored (py_round 4) tesla_model3 (rnd (- 23.03))))"
proof -
  have nonan: "NaN \<notin> set example_us"
    by (simp add: example_us_values)
  have above: "\<exists>u\<in>set example_us. u \<noteq> NInf"
    by (simp add: example_us_values)
  from best_is_first_maximum[OF example_bob example_scores nonan above] obtain i where
    i: "i < length example_cars"
    and mx: "\<forall>j<length example_cars. \<not> fgt (example_us ! j) (example_us ! i)"
    and fs: "\<forall>j<i. fgt (example_us ! i) (example_us ! j)"
    and server: "\<exists>res. handle_call_tool example_lib example_store ''find_best_car''
            (JObj [(''user_id'', JStr ''bob''), (''cars'', JArr (map JObj example_cars))]) =
          Inr res \<and>
          subscript res ''best_car'' = Inr (scored (\<lambda>u. u) (example_cars ! i) (example_us ! i))"
    and app: "\<forall>cars_json rounded.
               json_loads example_lib cars_json = Some (JArr (map JObj example_cars)) \<and>
               round_coeffs DEFAULT_COEFFS = Inr rounded \<longrightarrow>
               (\<exists>res. find_best_from_list example_lib example_store ''bob'' cars_json = Inr res \<and>
                      subscript res ''best_car'' =
                        Inr (scored (py_round 4) (example_cars ! i) (example_us ! i)))"
    by blast
  from i have "i = 0 \<or> i = 1 \<or> i = 2"
    by (auto simp: example_cars_def)
  moreover have "i \<noteq> 0"
  proof
    assume "i = 0"
    with mx have "\<not> fgt (example_us ! 1) (example_us ! 0)"
      by (simp add: example_cars_def)
    then show False
      by (simp add: example_us_values)
  qed
  moreover have "i \<noteq> 2"
  proof
    assume "i = 2"
    with fs have "fgt (example_us ! 2) (example_us ! 1)"
      by simp
    then show False
      by (simp add: example_us_values)
  qed
  ultimately have i1: "i = 1" by simp
  have sel: "example_cars ! Suc 0 = tesla_model3" "example_us ! Suc 0 = rnd (- 23.03)"
    by (simp_all add: example_cars_def example_us_def)
  from app example_parse round_default have
    "\<exists>res. find_best_from_list example_lib example_store ''bob'' example_cars_json = Inr res \<and>
           subscript res ''best_car'' =
             Inr (scored (py_round 4) (example_cars ! i) (example_us ! i))"
    by blast
  with server show ?thesis
    unfolding i1 One_nat_def sel by blast
qed

text \<open>
  The claim as the specification words it fails on a non-empty list: a candidate whose seat
  count is the integer \<open>2\<^sup>1\<^sup>0\<^sup>2\<^sup>3\<close>, scored with a seat coefficient of -2, has the utility
  negative infinity, which does not exceed the initial best; the list is scored and the best
  candidate stays null.
\<close>

theorem best_missing_for_infinite_utility:
  "handle_call_tool example_lib example_store ''find_best_car''
     (JObj [(''user_id'', JStr ''gail''), (''cars'', JArr [JObj huge_seats])]) =
   Inr (JObj [(''user_id'', JStr ''gail''),
              (''best_car'', JNull),
              (''all_cars_with_utilities'',
                 JArr [JObj (huge_seats @ [(''utility'', JNum NInf)])]),
              (''coefficients_used'',
                 JObj [(''price'', JInt 0), (''range'', JInt 0), (''efficiency'', JInt 0),
                       (''acceleration'', JInt 0), (''fast_charge'', JInt 0),
                       (''seat_count'', JInt (- 2))])])"
proof -
  have w: "with_utility (JObj huge_seats) (JNum u) =
             Inr (JObj (huge_seats @ [(''utility'', JNum u)]))" for u
    by (simp add: with_utility_def huge_seats_def)
  show ?thesis
    by (simp add: handle_call_tool_def subscript_def py_iter_def gail_coeffs huge_seats_score
          init_state_def w)
qed

section \<open>Ranking: the order of the output sequence\<close>

text \<open>
  C6 (amended). For every non-empty candidate list whose candidates all score, the
  tool-protocol adapter (\<^verbatim>\<open>find_best_car\<close>) returns in \<open>all_cars_with_utilities\<close> the scored
  records in input order, unsorted; and when no utility is NaN and the coefficients can be
  rounded for display, the UI adapter (\<^verbatim>\<open>find_best_from_list\<close>) returns in
  \<open>all_cars_ranked\<close> a permutation of the scored records that is non-increasing in the shown
  (rounded) utility and stable, two records of equal utility keeping their input order.
\<close>

theorem ranking_order_by_adapter:
  assumes coeffs: "get_user_coefficients lib redis (JStr user_id) = Inr coeffs"
      and us: "map_err (\<lambda>raw. calculate_utility_score lib (JObj raw) coeffs) raws = Inr us"
      and ne: "raws \<noteq> []"
  shows "(\<exists>res. handle_call_tool lib redis ''find_best_car''
                  (JObj [(''user_id'', JStr user_id), (''cars'', JArr (map JObj raws))]) =
                Inr res \<and>
                subscript res ''all_cars_with_utilities'' =
                  Inr (JArr (scored_records (\<lambda>u. u) raws us))) \<and>
         (\<forall>cars_json rounded.
            NaN \<notin> set us \<and>
            json_loads lib cars_json = Some (JArr (map JObj raws)) \<and>
            round_coeffs coeffs = Inr rounded \<longrightarrow>
            (\<exists>res ranked.
               find_best_from_list lib redis user_id cars_json = Inr res \<and>
               subscript res ''all_cars_ranked'' = Inr (JArr ranked) \<and>
               mset ranked = mset (scored_records (py_round 4) raws us) \<and>
               descending ranked \<and>
               (\<forall>k. filter (\<lambda>r. sort_key_of r = Inr k) ranked =
                    filter (\<lambda>r. sort_key_of r = Inr k)
                      (scored_records (py_round 4) raws us))))"
proof -
  have len: "length us = length raws"
    using map_err_length[OF us] .
  from loop_all[OF us, of "\<lambda>u. u"] obtain st where
    st: "rank_loop lib (\<lambda>u. u) coeffs (map JObj raws) init_state = Inr st"
    and ar: "all_results st = scored_records (\<lambda>u. u) raws us"
    by blast
  from loop_all[OF us, of "py_round 4"] obtain st' where
    st': "rank_loop lib (py_round 4) coeffs (map JObj raws) init_state = Inr st'"
    and ar': "all_results st' = scored_records (py_round 4) raws us"
    by blast
  have server: "\<exists>res. handle_call_tool lib redis ''find_best_car''
                  (JObj [(''user_id'', JStr user_id), (''cars'', JArr (map JObj raws))]) =
                Inr res \<and>
                subscript res ''all_cars_with_utilities'' =
                  Inr (JArr (scored_records (\<lambda>u. u) raws us))"
    using find_best_car_result[OF coeffs st] ar by (simp add: subscript_def)
  have app: "\<exists>res ranked.
               find_best_from_list lib redis user_id cars_json = Inr res \<and>
               subscript res ''all_cars_ranked'' = Inr (JArr ranked) \<and>
               mset ranked = mset (scored_records (py_round 4) raws us) \<and>
               descending ranked \<and>
               (\<forall>k. filter (\<lambda>r. sort_key_of r = Inr k) ranked =
                    filter (\<lambda>r. sort_key_of r = Inr k)
                      (scored_records (py_round 4) raws us))"
    if nonan: "NaN \<notin> set us"
       and json: "json_loads lib cars_json = Some (JArr (map JObj raws))"
       and rounded: "round_coeffs coeffs = Inr rounded" for cars_json rounded
  proof -
    from scored_sort_props[OF nonan len, of lib] ar' obtain ranked where
      ranked: "sort_by_utility lib (all_results st') = Inr ranked"
      and perm: "mset ranked = mset (scored_records (py_round 4) raws us)"
      and desc: "descending ranked"
      and stable: "\<forall>k. filter (\<lambda>r. sort_key_of r = Inr k) ranked =
                       filter (\<lambda>r. sort_key_of r = Inr k) (scored_records (py_round 4) raws us)"
      by auto
    show ?thesis
      using find_best_from_list_result[OF json coeffs st' ranked rounded] perm desc stable
      by (simp add: subscript_def)
  qed
  from server app show ?thesis by blast
qed

theorem ranking_order_by_adapter_witness:
  "(\<exists>res. handle_call_tool example_lib example_store ''find_best_car''
            (JObj [(''user_id'', JStr ''bob''), (''cars'', JArr (map JObj example_cars))]) =
          Inr res \<and>
          subscript res ''all_cars_with_utilities'' =
            Inr (JArr (scored_records (\<lambda>u. u) example_cars example_us))) \<and>
   (\<exists>res ranked.
      find_best_from_list example_lib example_store ''bob'' example_cars_json = Inr res \<and>
      subscript res ''all_cars_ranked'' = Inr (JArr ranked) \<and>
      mset ranked = mset (scored_records (py_round 4) example_cars example_us) \<and>
      descending ranked \<and>
      (\<forall>k. filter (\<lambda>r. sort_key_of r = Inr k) ranked =
           filter (\<lambda>r. sort_key_of r = Inr k)
             (scored_records (py_round 4) example_cars example_us)))"
proof -
  have ne: "example_cars \<noteq> []"
    by (simp add: example_cars_def)
  have nonan: "NaN \<notin> set example_us"
    by (simp add: example_us_values)
  from ranking_order_by_adapter[OF example_bob example_scores ne] nonan example_parse
    round_default
  show ?thesis by blast
qed

text \<open>
  The claim as the specification words it, that the output sequence of the ranking operation
  is sorted by utility, fails for \<^verbatim>\<open>find_best_car\<close>: given the Volkswagen before the Tesla,
  it returns them in that order, the lower utility first.
\<close>

theorem server_output_not_sorted:
  "handle_call_tool example_lib example_store ''find_best_car''
     (JObj [(''user_id'', JStr ''bob''), (''cars'', JArr [JObj vw_id4, JObj tesla_model3])]) =
   Inr (JObj [(''user_id'', JStr ''bob''),
              (''best_car'', JObj (tesla_model3 @ [(''utility'', JNum (rnd (- 23.03)))])),
              (''all_cars_with_utilities'',
                 JArr [JObj (vw_id4 @ [(''utility'', JNum (rnd (- 23.54)))]),
                       JObj (tesla_model3 @ [(''utility'', JNum (rnd (- 23.03)))])]),
              (''coefficients_used'', DEFAULT_COEFFS)]) \<and>
   \<not> descending [JObj (vw_id4 @ [(''utility'', JNum (rnd (- 23.54)))]),
                 JObj (tesla_model3 @ [(''utility'', JNum (rnd (- 23.03)))])]"
proof -
  have w1: "with_utility (JObj vw_id4) (JNum u) = Inr (JObj (vw_id4 @ [(''utility'', JNum u)]))"
    for u by (simp add: with_utility_def vw_id4_def)
  have w2: "with_utility (JObj tesla_model3) (JNum u) =
              Inr (JObj (tesla_model3 @ [(''utility'', JNum u)]))"
    for u by (simp add: with_utility_def tesla_model3_def)
  have out: "handle_call_tool example_lib example_store ''find_best_car''
     (JObj [(''user_id'', JStr ''bob''), (''cars'', JArr [JObj vw_id4, JObj tesla_model3])]) =
   Inr (JObj [(''user_id'', JStr ''bob''),
              (''best_car'', JObj (tesla_model3 @ [(''utility'', JNum (rnd (- 23.03)))])),
              (''all_cars_with_utilities'',
                 JArr [JObj (vw_id4 @ [(''utility'', JNum (rnd (- 23.54)))]),
                       JObj (tesla_model3 @ [(''utility'', JNum (rnd (- 23.03)))])]),
              (''coefficients_used'', DEFAULT_COEFFS)])"
    by (simp add: handle_call_tool_def subscript_def py_iter_def example_bob init_state_def
          vw_score tesla_model3_score w1 w2 rnd_values)
  have "\<not> descending [JObj (vw_id4 @ [(''utility'', JNum (rnd (- 23.54)))]),
                 JObj (tesla_model3 @ [(''utility'', JNum (rnd (- 23.03)))])]"
    by (simp add: descending_def sort_key_of_def subscript_def vw_id4_def tesla_model3_def
          rnd_values fge_def)
  with out show ?thesis by simp
qed

section \<open>Ranking: the empty candidate list\<close>

text \<open>
  C2 (amended). For every user identifier whose coefficient lookup succeeds, the ranking
  operation called with an empty candidate list does not fail: \<^verbatim>\<open>find_best_car\<close> returns a
  result whose best candidate is null and whose output sequence is empty, and so does
  \<^verbatim>\<open>find_best_from_list\<close> when the coefficients can be rounded for display.
\<close>

theorem empty_list_returns_empty_result:
  assumes coeffs: "get_user_coefficients lib redis (JStr user_id) = Inr coeffs"
  shows "handle_call_tool lib redis ''find_best_car''
           (JObj [(''user_id'', JStr user_id), (''cars'', JArr [])]) =
         Inr (JObj [(''user_id'', JStr user_id),
                    (''best_car'', JNull),
                    (''all_cars_with_utilities'', JArr []),
                    (''coefficients_used'', coeffs)]) \<and>
         (\<forall>cars_json rounded.
            json_loads lib cars_json = Some (JArr []) \<and> round_coeffs coeffs = Inr rounded \<longrightarrow>
            find_best_from_list lib redis user_id cars_json =
            Inr (JObj [(''user_id'', JStr user_id),
                       (''best_car'', JNull),
                       (''all_cars_ranked'', JArr []),
                       (''coefficients_used'', rounded),
                       (''note'', JStr (if equals_default coeffs
                                        then ''Using default coefficients''
                                        else ''Using saved user preferences''))]))"
  using coeffs
  by (simp add: handle_call_tool_def find_best_from_list_def subscript_def py_iter_def
        init_state_def sort_by_utility_def sort_desc_def)

theorem empty_list_returns_empty_result_witness:
  "handle_call_tool example_lib example_store ''find_best_car''
     (JObj [(''user_id'', JStr ''carol''), (''cars'', JArr [])]) =
   Inr (JObj [(''user_id'', JStr ''carol''),
              (''best_car'', JNull),
              (''all_cars_with_utilities'', JArr []),
              (''coefficients_used'', DEFAULT_COEFFS)])"
proof -
  have h: "get_user_coefficients example_lib example_store (JStr ''carol'') = Inr DEFAULT_COEFFS"
    by (simp add: get_user_coefficients_def example_store_def example_lib_def example_loads_def)
  from empty_list_returns_empty_result[OF h] show ?thesis by simp
qed

text \<open>
  The claim as the specification words it, that an empty candidate list makes the ranking
  operation fail, is false for both adapters: for a user without stored coefficients each
  returns a result.
\<close>

theorem empty_list_does_not_fail:
  "handle_call_tool example_lib example_store ''find_best_car''
     (JObj [(''user_id'', JStr ''bob''), (''cars'', JArr [])]) =
   Inr (JObj [(''user_id'', JStr ''bob''),
              (''best_car'', JNull),
              (''all_cars_with_utilities'', JArr []),
              (''coefficients_used'', DEFAULT_COEFFS)]) \<and>
   find_best_from_list example_lib example_store ''bob'' ''[]'' =
   Inr (JObj [(''user_id'', JStr ''bob''),
              (''best_car'', JNull),
              (''all_cars_ranked'', JArr []),
              (''coefficients_used'', DEFAULT_COEFFS),
              (''note'', JStr ''Using default coefficients'')])"
proof -
  have p: "json_loads example_lib ''[]'' = Some (JArr [])"
    by (simp add: example_lib_def example_loads_def)
  show ?thesis
    by (simp add: handle_call_tool_def find_best_from_list_def subscript_def py_iter_def
          example_bob init_state_def sort_by_utility_def sort_desc_def round_default p
          default_is_default)
qed

section \<open>Ranking: what scoring changes in a record\<close>



end
